theory Spec2Isabelle
  imports Main
begin

section \<open>Python values used by the audits\<close>

text \<open>
  The audits of \<^verbatim>\<open>pacemaker/_cts/audits.py\<close> are modelled as functions over
  explicit state. Every exception the Python can raise in the modelled code is a
  value of \<open>py_error\<close>, and a function that can raise returns \<open>py_error + 'a\<close>.
\<close>

datatype py_error =
    IndexError
  | KeyError string
  | ValueError string
  | UnboundLocalError string
  | NotImplementedError

subsection \<open>Strings\<close>

text \<open>
  Command output is ASCII text. \<open>py_isspace\<close> is \<^verbatim>\<open>str.isspace\<close> on ASCII
  characters: tab, line feed, vertical tab, form feed, carriage return, the four
  separators 0x1C to 0x1F and the space.
\<close>

definition py_isspace :: "char \<Rightarrow> bool" where
  "py_isspace c =
     (c = CHR 0x09 \<or> c = CHR 0x0A \<or> c = CHR 0x0B \<or> c = CHR 0x0C \<or> c = CHR 0x0D
      \<or> c = CHR 0x1C \<or> c = CHR 0x1D \<or> c = CHR 0x1E \<or> c = CHR 0x1F \<or> c = CHR 0x20)"

text \<open>\<^verbatim>\<open>s.strip()\<close>: leading and trailing whitespace removed.\<close>

definition py_strip :: "string \<Rightarrow> string" where
  "py_strip s = rev (dropWhile py_isspace (rev (dropWhile py_isspace s)))"

text \<open>
  \<^verbatim>\<open>s.split()\<close>: the maximal runs of non-whitespace characters, in order;
  \<open>cur\<close> is the run being read.
\<close>

fun split_acc :: "string \<Rightarrow> string \<Rightarrow> string list" where
  "split_acc cur [] = (if cur = [] then [] else [cur])"
| "split_acc cur (c # cs) =
     (if py_isspace c then (if cur = [] then split_acc [] cs else cur # split_acc [] cs)
      else split_acc (cur @ [c]) cs)"

definition py_split :: "string \<Rightarrow> string list" where
  "py_split s = split_acc [] s"

text \<open>
  \<^verbatim>\<open>int(s)\<close> on a string: surrounding whitespace is ignored, one sign is allowed,
  then decimal digits, where single underscores may separate digits. Anything else
  raises ValueError.
\<close>

definition digit_val :: "char \<Rightarrow> nat option" where
  "digit_val c =
     (if (48::nat) \<le> of_char c \<and> (of_char c :: nat) \<le> 57 then Some (of_char c - 48)
      else None)"

fun parse_digits :: "nat \<Rightarrow> bool \<Rightarrow> string \<Rightarrow> nat option" where
  "parse_digits acc prev_digit [] = (if prev_digit then Some acc else None)"
| "parse_digits acc prev_digit (c # cs) =
     (if c = CHR ''_'' then
        (if prev_digit \<and> cs \<noteq> [] then parse_digits acc False cs else None)
      else (case digit_val c of
              None \<Rightarrow> None
            | Some d \<Rightarrow> parse_digits (10 * acc + d) True cs))"

definition py_int :: "string \<Rightarrow> py_error + int" where
  "py_int s =
     (case py_strip s of
        [] \<Rightarrow> Inl (ValueError s)
      | c # cs \<Rightarrow>
          (if c = CHR ''-'' then
             (case parse_digits 0 False cs of
                None \<Rightarrow> Inl (ValueError s)
              | Some n \<Rightarrow> Inr (- int n))
           else if c = CHR ''+'' then
             (case parse_digits 0 False cs of
                None \<Rightarrow> Inl (ValueError s)
              | Some n \<Rightarrow> Inr (int n))
           else
             (case parse_digits 0 False (c # cs) of
                None \<Rightarrow> Inl (ValueError s)
              | Some n \<Rightarrow> Inr (int n))))"

text \<open>\<^verbatim>\<open>re.search(pat, s)\<close> for a pattern without metacharacters: \<open>pat\<close> occurs in \<open>s\<close>.\<close>

fun contains :: "string \<Rightarrow> string \<Rightarrow> bool" where
  "contains pat [] = (pat = [])"
| "contains pat (c # cs) = (take (length pat) (c # cs) = pat \<or> contains pat cs)"

section \<open>The audit classes and \<^verbatim>\<open>audit_list\<close>\<close>

text \<open>
  The classes of the module. \<open>ClusterAudit\<close> is the base class; \<open>GroupAudit\<close>,
  \<open>CloneAudit\<close> and \<open>ColocationAudit\<close> derive from \<open>PrimitiveAudit\<close> and do not
  override \<^verbatim>\<open>is_applicable\<close>.
\<close>

datatype auditclass =
    ClusterAudit
  | LogAudit
  | DiskAudit
  | FileAudit
  | PrimitiveAudit
  | GroupAudit
  | CloneAudit
  | ColocationAudit
  | ControllerStateAudit
  | CIBAudit
  | PartitionAudit

text \<open>
  The only part of the cluster manager that any \<^verbatim>\<open>is_applicable\<close> reads is
  \<^verbatim>\<open>cm.env["LogAuditDisabled"]\<close>; the parameter \<open>log_audit_disabled\<close> is its
  truth value.
\<close>

definition ClusterAudit_is_applicable :: "bool \<Rightarrow> py_error + bool" where
  "ClusterAudit_is_applicable log_audit_disabled = Inl NotImplementedError"

definition LogAudit_is_applicable :: "bool \<Rightarrow> py_error + bool" where
  "LogAudit_is_applicable log_audit_disabled =
     (if log_audit_disabled then Inr False else Inr True)"

definition DiskAudit_is_applicable :: "bool \<Rightarrow> py_error + bool" where
  "DiskAudit_is_applicable log_audit_disabled = Inr True"

definition FileAudit_is_applicable :: "bool \<Rightarrow> py_error + bool" where
  "FileAudit_is_applicable log_audit_disabled = Inr True"

definition PrimitiveAudit_is_applicable :: "bool \<Rightarrow> py_error + bool" where
  "PrimitiveAudit_is_applicable log_audit_disabled = Inr False"

definition ControllerStateAudit_is_applicable :: "bool \<Rightarrow> py_error + bool" where
  "ControllerStateAudit_is_applicable log_audit_disabled = Inr False"

definition CIBAudit_is_applicable :: "bool \<Rightarrow> py_error + bool" where
  "CIBAudit_is_applicable log_audit_disabled = Inr False"

definition PartitionAudit_is_applicable :: "bool \<Rightarrow> py_error + bool" where
  "PartitionAudit_is_applicable log_audit_disabled = Inr False"

text \<open>Method lookup: a class without its own method uses the one of its base class.\<close>

fun is_applicable :: "bool \<Rightarrow> auditclass \<Rightarrow> py_error + bool" where
  "is_applicable d ClusterAudit = ClusterAudit_is_applicable d"
| "is_applicable d LogAudit = LogAudit_is_applicable d"
| "is_applicable d DiskAudit = DiskAudit_is_applicable d"
| "is_applicable d FileAudit = FileAudit_is_applicable d"
| "is_applicable d PrimitiveAudit = PrimitiveAudit_is_applicable d"
| "is_applicable d GroupAudit = PrimitiveAudit_is_applicable d"
| "is_applicable d CloneAudit = PrimitiveAudit_is_applicable d"
| "is_applicable d ColocationAudit = PrimitiveAudit_is_applicable d"
| "is_applicable d ControllerStateAudit = ControllerStateAudit_is_applicable d"
| "is_applicable d CIBAudit = CIBAudit_is_applicable d"
| "is_applicable d PartitionAudit = PartitionAudit_is_applicable d"

text \<open>The fixed catalogue that \<^verbatim>\<open>audit_list\<close> iterates over, in its order.\<close>

definition audit_catalog :: "auditclass list" where
  "audit_catalog =
     [DiskAudit, FileAudit, LogAudit, ControllerStateAudit, PartitionAudit,
      PrimitiveAudit, GroupAudit, CloneAudit, ColocationAudit, CIBAudit]"

text \<open>
  The loop of \<^verbatim>\<open>audit_list\<close>: \<open>result\<close> is the list built so far, an
  applicable class is appended to it.
\<close>

fun audit_list_loop ::
  "bool \<Rightarrow> auditclass list \<Rightarrow> auditclass list \<Rightarrow> py_error + auditclass list" where
  "audit_list_loop d [] result = Inr result"
| "audit_list_loop d (a # rest) result =
     (case is_applicable d a of
        Inl e \<Rightarrow> Inl e
      | Inr b \<Rightarrow> audit_list_loop d rest (if b then result @ [a] else result))"

definition audit_list :: "bool \<Rightarrow> py_error + auditclass list" where
  "audit_list d = audit_list_loop d audit_catalog []"

section \<open>PartitionAudit\<close>

text \<open>
  What \<^verbatim>\<open>cm.rsh(node, cmd)\<close> prints for the three commands that the audit runs on
  a node (the lines of the output, each with its line end), and the cluster
  manager's leader test \<^verbatim>\<open>cm.is_node_dc(node, status)\<close>. The answers of a node are
  taken to be the same throughout one audit of a partition.
\<close>

record partition_cm =
  status_out :: "string \<Rightarrow> string list"
  epoch_out :: "string \<Rightarrow> string list"
  quorum_out :: "string \<Rightarrow> string list"
  is_node_dc :: "string \<Rightarrow> string option \<Rightarrow> bool"

text \<open>
  The messages of the audit, each with the values its f-string formats;
  \<open>Debug_\<close> messages go to \<^verbatim>\<open>self.debug\<close>, the others to \<^verbatim>\<open>cm.log\<close>.
\<close>

datatype partition_msg =
    Debug_auditing string
  | Log_appeared string
  | Debug_node string string string string
  | Log_disappeared string
  | Log_lowest_not_determined string
  | Debug_ok string
  | Debug_no_node_epoch string
  | Debug_no_lowest_epoch string
  | Log_dc_not_oldest string "int option" "int option"
  | Log_dc_not_found nat "string list" "string list"
  | Log_many_dcs nat "string list" "string list"
  | Log_epoch_state "int option" "string option"

text \<open>
  The state that the audit reads and writes: \<^verbatim>\<open>cm.expected_status\<close>, the three
  dictionaries of the audit object, and the messages written so far.
\<close>

record partition_state =
  expected_status :: "string \<rightharpoonup> string"
  node_state :: "string \<rightharpoonup> string option"
  node_epoch :: "string \<rightharpoonup> int option"
  node_quorum :: "string \<rightharpoonup> string option"
  messages :: "partition_msg list"

definition say :: "partition_msg \<Rightarrow> partition_state \<Rightarrow> partition_state" where
  "say m st = st\<lparr>messages := messages st @ [m]\<rparr>"

text \<open>\<^verbatim>\<open>out[0].strip()\<close>: IndexError when the command printed nothing.\<close>

definition first_line :: "string list \<Rightarrow> py_error + string" where
  "first_line out = (case out of [] \<Rightarrow> Inl IndexError | l # _ \<Rightarrow> Inr (py_strip l))"

definition trim_string :: "string \<Rightarrow> string option" where
  "trim_string avalue =
     (if avalue = [] then None
      else if length avalue > 1 then Some (butlast avalue)
      else Some avalue)"

definition trim2int :: "string \<Rightarrow> py_error + int option" where
  "trim2int avalue =
     (case trim_string avalue of
        None \<Rightarrow> Inr None
      | Some trimmed \<Rightarrow>
          (if trimmed \<noteq> [] then
             (case py_int trimmed of Inl e \<Rightarrow> Inl e | Inr i \<Rightarrow> Inr (Some i))
           else Inr None))"

text \<open>Truth value of an epoch: \<^verbatim>\<open>None\<close> and \<^verbatim>\<open>0\<close> are false.\<close>

definition epoch_true :: "int option \<Rightarrow> bool" where
  "epoch_true e = (case e of None \<Rightarrow> False | Some i \<Rightarrow> i \<noteq> 0)"

text \<open>
  The body of the first loop of \<^verbatim>\<open>_audit_partition\<close> for one node; the second
  component of the pair is \<^verbatim>\<open>lowest_epoch\<close>.
\<close>

definition audit_node ::
  "partition_cm \<Rightarrow> string \<Rightarrow> partition_state \<times> int option
   \<Rightarrow> py_error + (partition_state \<times> int option)" where
  "audit_node cm node p =
     (case p of (st, lowest_epoch) \<Rightarrow>
      (case expected_status st node of
         None \<Rightarrow> Inl (KeyError node)
       | Some es \<Rightarrow>
         (let st1 = (if es \<noteq> ''up''
                     then (say (Log_appeared node) st)
                            \<lparr>expected_status := (expected_status st)(node \<mapsto> ''up'')\<rparr>
                     else st)
          in
          case first_line (status_out cm node) of Inl e \<Rightarrow> Inl e | Inr raw_state \<Rightarrow>
          case first_line (epoch_out cm node) of Inl e \<Rightarrow> Inl e | Inr raw_epoch \<Rightarrow>
          case first_line (quorum_out cm node) of Inl e \<Rightarrow> Inl e | Inr raw_quorum \<Rightarrow>
          case trim2int raw_epoch of Inl e \<Rightarrow> Inl e | Inr epoch \<Rightarrow>
            (let st2 = (say (Debug_node node raw_state raw_epoch raw_quorum) st1)
                         \<lparr>node_state := (node_state st1)(node \<mapsto> trim_string raw_state),
                          node_epoch := (node_epoch st1)(node \<mapsto> epoch),
                          node_quorum := (node_quorum st1)(node \<mapsto> trim_string raw_quorum)\<rparr>
             in
             if \<not> epoch_true epoch then
               Inr ((say (Log_disappeared node) st2)
                      \<lparr>expected_status := (expected_status st2)(node \<mapsto> ''down'')\<rparr>,
                    lowest_epoch)
             else if lowest_epoch = None \<or> the epoch < the lowest_epoch then
               Inr (st2, epoch)
             else Inr (st2, lowest_epoch)))))"

fun audit_nodes ::
  "partition_cm \<Rightarrow> string list \<Rightarrow> partition_state \<times> int option
   \<Rightarrow> py_error + (partition_state \<times> int option)" where
  "audit_nodes cm [] p = Inr p"
| "audit_nodes cm (node # rest) p =
     (case audit_node cm node p of Inl e \<Rightarrow> Inl e | Inr p' \<Rightarrow> audit_nodes cm rest p')"

text \<open>
  The body of the second loop for one node; the state of the loop is the message
  log, \<^verbatim>\<open>dc_found\<close> and \<^verbatim>\<open>passed\<close>.
\<close>

definition check_dc ::
  "partition_cm \<Rightarrow> int option \<Rightarrow> string
   \<Rightarrow> partition_state \<times> string list \<times> bool
   \<Rightarrow> py_error + (partition_state \<times> string list \<times> bool)" where
  "check_dc cm lowest_epoch node q =
     (case q of (st, dc_found, passed) \<Rightarrow>
      (case expected_status st node of
         None \<Rightarrow> Inl (KeyError node)
       | Some es \<Rightarrow>
         if es \<noteq> ''up'' then Inr (st, dc_found, passed)
         else
          (case node_state st node of
             None \<Rightarrow> Inl (KeyError node)
           | Some state \<Rightarrow>
             if is_node_dc cm node state then
               (case node_epoch st node of
                  None \<Rightarrow> Inl (KeyError node)
                | Some epoch \<Rightarrow>
                  if epoch = lowest_epoch then
                    Inr (say (Debug_ok node) st, dc_found @ [node], passed)
                  else if \<not> epoch_true epoch then
                    Inr (say (Debug_no_node_epoch node) st, dc_found @ [node], passed)
                  else if \<not> epoch_true lowest_epoch then
                    Inr (say (Debug_no_lowest_epoch node) st, dc_found @ [node], passed)
                  else
                    Inr (say (Log_dc_not_oldest node epoch lowest_epoch) st,
                         dc_found @ [node], False))
             else Inr (st, dc_found, passed))))"

fun check_dcs ::
  "partition_cm \<Rightarrow> int option \<Rightarrow> string list
   \<Rightarrow> partition_state \<times> string list \<times> bool
   \<Rightarrow> py_error + (partition_state \<times> string list \<times> bool)" where
  "check_dcs cm lowest_epoch [] q = Inr q"
| "check_dcs cm lowest_epoch (node # rest) q =
     (case check_dc cm lowest_epoch node q of
        Inl e \<Rightarrow> Inl e
      | Inr q' \<Rightarrow> check_dcs cm lowest_epoch rest q')"

text \<open>The dump of every up node's epoch and status after a failure.\<close>

fun dump_nodes :: "string list \<Rightarrow> partition_state \<Rightarrow> py_error + partition_state" where
  "dump_nodes [] st = Inr st"
| "dump_nodes (node # rest) st =
     (case expected_status st node of
        None \<Rightarrow> Inl (KeyError node)
      | Some es \<Rightarrow>
        if es = ''up'' then
          (case node_epoch st node of
             None \<Rightarrow> Inl (KeyError node)
           | Some epoch \<Rightarrow>
             (case node_state st node of
                None \<Rightarrow> Inl (KeyError node)
              | Some state \<Rightarrow> dump_nodes rest (say (Log_epoch_state epoch state) st)))
        else dump_nodes rest st)"

text \<open>
  What follows the second loop: the report on the number of leaders found, and
  the dump. \<^verbatim>\<open>dc_allowed_list\<close> is never filled, so the first message always
  reports no allowed node.
\<close>

definition report_dcs ::
  "string list \<Rightarrow> partition_state \<times> string list \<times> bool
   \<Rightarrow> py_error + (partition_state \<times> bool)" where
  "report_dcs node_list q =
     (case q of (st, dc_found, passed) \<Rightarrow>
      (let r = (if dc_found = [] then (say (Log_dc_not_found 0 [] node_list) st, passed)
                else if length dc_found > 1
                then (say (Log_many_dcs (length dc_found) dc_found node_list) st, False)
                else (st, passed))
       in
       if \<not> snd r then
         (case dump_nodes node_list (fst r) of
            Inl e \<Rightarrow> Inl e
          | Inr st' \<Rightarrow> Inr (st', snd r))
       else Inr r))"

definition audit_partition ::
  "partition_cm \<Rightarrow> partition_state \<Rightarrow> string \<Rightarrow> py_error + (partition_state \<times> bool)" where
  "audit_partition cm st partition_str =
     (let node_list = py_split partition_str in
      case audit_nodes cm node_list (say (Debug_auditing partition_str) st, None) of
        Inl e \<Rightarrow> Inl e
      | Inr (st1, lowest_epoch) \<Rightarrow>
          (let q = (if \<not> epoch_true lowest_epoch
                    then (say (Log_lowest_not_determined partition_str) st1, [], False)
                    else (st1, [], True))
           in
           case check_dcs cm lowest_epoch node_list q of
             Inl e \<Rightarrow> Inl e
           | Inr q' \<Rightarrow> report_dcs node_list q'))"

text \<open>
  Notions used to state the properties of the partition audit, read off the
  state that the audit leaves behind: the nodes of the partition that are
  expected up and pass the leader test, in the order of the partition string, and
  the epochs of the nodes that produced one (a true value: neither \<^verbatim>\<open>None\<close>
  nor 0).
\<close>

definition dc_nodes :: "partition_cm \<Rightarrow> partition_state \<Rightarrow> string list \<Rightarrow> string list" where
  "dc_nodes cm st node_list =
     filter (\<lambda>n. expected_status st n = Some ''up''
                 \<and> (case node_state st n of None \<Rightarrow> False | Some s \<Rightarrow> is_node_dc cm n s))
       node_list"

definition produced_epochs :: "partition_state \<Rightarrow> string list \<Rightarrow> int list" where
  "produced_epochs st node_list =
     concat (map (\<lambda>n. case node_epoch st n of
                         Some (Some i) \<Rightarrow> if i \<noteq> 0 then [i] else []
                       | _ \<Rightarrow> []) node_list)"

text \<open>
  The epoch and the status that the audit records for a node whose three queries
  all give a first line and whose epoch converts.
\<close>

definition epoch_of :: "partition_cm \<Rightarrow> string \<Rightarrow> int option" where
  "epoch_of cm node =
     (case first_line (epoch_out cm node) of
        Inl _ \<Rightarrow> None
      | Inr raw \<Rightarrow> (case trim2int raw of Inl _ \<Rightarrow> None | Inr epoch \<Rightarrow> epoch))"

definition state_of :: "partition_cm \<Rightarrow> string \<Rightarrow> string option" where
  "state_of cm node =
     (case first_line (status_out cm node) of Inl _ \<Rightarrow> None | Inr raw \<Rightarrow> trim_string raw)"

text \<open>The update of \<^verbatim>\<open>lowest_epoch\<close> by one node's epoch, as the first loop does it.\<close>

definition lower :: "int option \<Rightarrow> int option \<Rightarrow> int option" where
  "lower epoch lowest_epoch =
     (if epoch_true epoch \<and> (lowest_epoch = None \<or> the epoch < the lowest_epoch)
      then epoch else lowest_epoch)"

text \<open>
  \<open>recorded\<close>: the three dictionaries of \<open>st'\<close> are those of \<open>st\<close> with the entries
  of the nodes in \<open>ns\<close> overwritten by what the first loop stores for them.
  \<open>stale\<close>: the test that makes a leader fail the audit. \<open>true_epochs\<close>: the true
  values of a list of epochs.
\<close>

definition recorded ::
  "partition_cm \<Rightarrow> string list \<Rightarrow> partition_state \<Rightarrow> partition_state \<Rightarrow> bool" where
  "recorded cm ns st st' =
     (node_epoch st' = (\<lambda>n. if n \<in> set ns then Some (epoch_of cm n) else node_epoch st n)
      \<and> node_state st' = (\<lambda>n. if n \<in> set ns then Some (state_of cm n) else node_state st n)
      \<and> expected_status st' =
          (\<lambda>n. if n \<in> set ns then Some (if epoch_true (epoch_of cm n) then ''up'' else ''down'')
                else expected_status st n))"

definition stale :: "int option \<Rightarrow> int option \<Rightarrow> bool" where
  "stale lo e = (e \<noteq> lo \<and> epoch_true e \<and> epoch_true lo)"

definition true_epochs :: "int option list \<Rightarrow> int list" where
  "true_epochs es =
     concat (map (\<lambda>e. case e of None \<Rightarrow> [] | Some i \<Rightarrow> if i \<noteq> 0 then [i] else []) es)"

text \<open>
  A partition of three nodes \<^verbatim>\<open>n1\<close>, \<^verbatim>\<open>n2\<close>, \<^verbatim>\<open>n3\<close>, all expected up: what each
  node prints for its epoch is \<open>epochs\<close>, node \<open>leader\<close> reports the status that the
  leader test accepts.
\<close>

definition three_nodes :: "(string \<Rightarrow> string list) \<Rightarrow> string \<Rightarrow> partition_cm" where
  "three_nodes epochs leader =
     \<lparr>status_out = (\<lambda>n. if n = leader then [''S_IDLE'' @ [CHR 0x0A]]
                         else [''S_NOT_DC'' @ [CHR 0x0A]]),
      epoch_out = epochs,
      quorum_out = (\<lambda>n. [''1'' @ [CHR 0x0A]]),
      is_node_dc = (\<lambda>n s. s = Some ''S_IDL'')\<rparr>"

definition epochs_5_5 :: "string list \<Rightarrow> string \<Rightarrow> string list" where
  "epochs_5_5 third n = (if n = ''n3'' then third else [''5'' @ [CHR 0x0A]])"

text \<open>
  Two sets of epochs of more than one digit, as the nodes print them: 12, 15 and
  9, and 50, 50 and 57.
\<close>

definition epochs_12_15_9 :: "string \<Rightarrow> string list" where
  "epochs_12_15_9 n =
     (if n = ''n1'' then [''12'' @ [CHR 0x0A]]
      else if n = ''n2'' then [''15'' @ [CHR 0x0A]]
      else [''9'' @ [CHR 0x0A]])"

definition epochs_50_50_57 :: "string \<Rightarrow> string list" where
  "epochs_50_50_57 n =
     (if n = ''n3'' then [''57'' @ [CHR 0x0A]] else [''50'' @ [CHR 0x0A]])"

definition all_up :: partition_state where
  "all_up =
     \<lparr>expected_status = [''n1'' \<mapsto> ''up'', ''n2'' \<mapsto> ''up'', ''n3'' \<mapsto> ''up''],
      node_state = Map.empty, node_epoch = Map.empty, node_quorum = Map.empty,
      messages = []\<rparr>"

section \<open>DiskAudit\<close>

text \<open>
  The messages of the audit: the failed \<^verbatim>\<open>df\<close> command (node), the invalid
  output (output, node, \<^verbatim>\<open>used\<close>, \<^verbatim>\<open>remain\<close>), the CRIT line (node, used percent,
  remaining megabytes) and the WARN line (remaining megabytes, node).
\<close>

datatype disk_msg =
    Log_df_failed string
  | Log_df_invalid string string string string
  | Log_crit string int int
  | Log_warn int string

text \<open>
  The variables of \<^verbatim>\<open>DiskAudit.__call__\<close> that live across iterations:
  \<^verbatim>\<open>result\<close>, the pair \<^verbatim>\<open>used\<close>, \<^verbatim>\<open>remain\<close> (unbound until an output first
  splits into two fields), and the messages written.
\<close>

record disk_loop =
  disk_result :: bool
  used_remain :: "(string \<times> string) option"
  disk_messages :: "disk_msg list"

definition disk_say :: "disk_msg \<Rightarrow> disk_loop \<Rightarrow> disk_loop" where
  "disk_say m s = s\<lparr>disk_messages := disk_messages s @ [m]\<rparr>"

text \<open>
  The loop body for one node. \<open>should_continue\<close> is what
  \<^verbatim>\<open>should_continue(cm.env)\<close> returns, \<open>df\<close> gives the output lines of the \<^verbatim>\<open>df\<close>
  command on a node. The \<^verbatim>\<open>except\<close> clause formats \<^verbatim>\<open>used\<close> and \<^verbatim>\<open>remain\<close>, which
  are unbound when no output has split into two fields yet.
\<close>

definition disk_node ::
  "bool \<Rightarrow> (string \<Rightarrow> string list) \<Rightarrow> string \<Rightarrow> disk_loop \<Rightarrow> py_error + disk_loop" where
  "disk_node should_continue df node s =
     (case df node of
        [] \<Rightarrow> Inr (disk_say (Log_df_failed node) s)
      | l # _ \<Rightarrow>
        (let dfout = py_strip l in
         case py_split dfout of
           [used, remain] \<Rightarrow>
             (let s1 = s\<lparr>used_remain := Some (used, remain)\<rparr> in
              case py_int used of
                Inl _ \<Rightarrow> Inr (disk_say (Log_df_invalid dfout node used remain) s1)
              | Inr used_percent \<Rightarrow>
                (case py_int remain of
                   Inl _ \<Rightarrow> Inr (disk_say (Log_df_invalid dfout node used remain) s1)
                 | Inr remaining_mb \<Rightarrow>
                     if remaining_mb < 10 \<or> used_percent > 95 then
                       (if \<not> should_continue
                        then Inl (ValueError (''Disk full on '' @ node))
                        else Inr ((disk_say (Log_crit node used_percent remaining_mb) s1)
                                    \<lparr>disk_result := False\<rparr>))
                     else if remaining_mb < 100 \<or> used_percent > 90 then
                       Inr (disk_say (Log_warn remaining_mb node) s1)
                     else Inr s1))
         | _ \<Rightarrow>
             (case used_remain s of
                None \<Rightarrow> Inl (UnboundLocalError ''used'')
              | Some (used, remain) \<Rightarrow>
                  Inr (disk_say (Log_df_invalid dfout node used remain) s))))"

fun disk_nodes ::
  "bool \<Rightarrow> (string \<Rightarrow> string list) \<Rightarrow> string list \<Rightarrow> disk_loop \<Rightarrow> py_error + disk_loop" where
  "disk_nodes c df [] s = Inr s"
| "disk_nodes c df (node # rest) s =
     (case disk_node c df node s of Inl e \<Rightarrow> Inl e | Inr s' \<Rightarrow> disk_nodes c df rest s')"

text \<open>\<^verbatim>\<open>DiskAudit.__call__\<close>: the messages written and the value returned.\<close>

definition DiskAudit_call ::
  "bool \<Rightarrow> (string \<Rightarrow> string list) \<Rightarrow> string list \<Rightarrow> py_error + (disk_msg list \<times> bool)" where
  "DiskAudit_call should_continue df nodes =
     (case disk_nodes should_continue df nodes
             \<lparr>disk_result = True, used_remain = None, disk_messages = []\<rparr> of
        Inl e \<Rightarrow> Inl e
      | Inr s \<Rightarrow> Inr (disk_messages s, disk_result s))"

text \<open>
  Notions used to state the properties of the disk audit. \<open>probe\<close>: the two
  integers (used percent, remaining megabytes) that a node's output converts to,
  if it does. \<open>two_fields\<close>: the output is empty or its first line has exactly two
  fields. \<open>crit\<close> and \<open>warn\<close>: the two levels.
\<close>

definition probe :: "string list \<Rightarrow> (int \<times> int) option" where
  "probe out =
     (case out of
        [] \<Rightarrow> None
      | l # _ \<Rightarrow>
        (case py_split (py_strip l) of
           [used, remain] \<Rightarrow>
             (case py_int used of
                Inl _ \<Rightarrow> None
              | Inr u \<Rightarrow> (case py_int remain of Inl _ \<Rightarrow> None | Inr r \<Rightarrow> Some (u, r)))
         | _ \<Rightarrow> None))"

definition two_fields :: "string list \<Rightarrow> bool" where
  "two_fields out =
     (case out of [] \<Rightarrow> True | l # _ \<Rightarrow> length (py_split (py_strip l)) = 2)"

definition crit :: "string list \<Rightarrow> bool" where
  "crit out = (case probe out of None \<Rightarrow> False | Some (u, r) \<Rightarrow> r < 10 \<or> u > 95)"

definition warn :: "string list \<Rightarrow> bool" where
  "warn out =
     (case probe out of
        None \<Rightarrow> False
      | Some (u, r) \<Rightarrow> \<not> (r < 10 \<or> u > 95) \<and> (r < 100 \<or> u > 90))"

text \<open>Example output of the \<^verbatim>\<open>df\<close> command on three nodes.\<close>

definition df_example :: "string \<Rightarrow> string list" where
  "df_example n =
     (if n = ''n1'' then [''40 5000'' @ [CHR 0x0A]]
      else if n = ''n2'' then [''92 800'' @ [CHR 0x0A]]
      else if n = ''n3'' then [''97 5'' @ [CHR 0x0A]]
      else [])"

section \<open>AuditResource and PrimitiveAudit\<close>

text \<open>
  The fields of an \<^verbatim>\<open>AuditResource\<close>. \<open>res_type\<close> is \<^verbatim>\<open>self.type\<close> and \<open>res_id\<close>
  is \<^verbatim>\<open>self.id\<close>. \<^verbatim>\<open>needs_quorum\<close> is stored as the field of the line, a
  string; only \<^verbatim>\<open>flags\<close> is converted to an integer.
\<close>

record AuditResource =
  line :: string
  res_type :: string
  res_id :: string
  clone_id :: string
  parent :: "string option"
  rprovider :: string
  rclass :: string
  rtype :: string
  host :: string
  needs_quorum :: string
  flags :: int
  flags_s :: string

text \<open>
  \<^verbatim>\<open>AuditResource.__init__\<close>. Reading a field that the line does not have
  raises IndexError; \<^verbatim>\<open>fields[10]\<close> is converted before \<^verbatim>\<open>fields[11]\<close> is read,
  and the conversion raises ValueError when the field is not a number.
\<close>

definition AuditResource_init :: "string \<Rightarrow> py_error + AuditResource" where
  "AuditResource_init l =
     (let flds = py_split l in
      if length flds < 11 then Inl IndexError
      else (case py_int (flds ! 10) of
              Inl e \<Rightarrow> Inl e
            | Inr f \<Rightarrow>
                if length flds < 12 then Inl IndexError
                else
                  Inr \<lparr>line = l,
                       res_type = flds ! 1,
                       res_id = flds ! 2,
                       clone_id = flds ! 3,
                       parent = (if flds ! 4 = ''NA'' then None else Some (flds ! 4)),
                       rprovider = flds ! 5,
                       rclass = flds ! 6,
                       rtype = flds ! 7,
                       host = flds ! 8,
                       needs_quorum = flds ! 9,
                       flags = f,
                       flags_s = flds ! 11\<rparr>))"

text \<open>
  The three properties return the masked flags, an integer; where the audit
  tests them, the value counts as true when it is not 0.
\<close>

definition unique :: "AuditResource \<Rightarrow> int" where
  "unique r = and (flags r) 0x20"

definition orphan :: "AuditResource \<Rightarrow> int" where
  "orphan r = and (flags r) 0x01"

definition managed :: "AuditResource \<Rightarrow> int" where
  "managed r = and (flags r) 0x02"

text \<open>
  Python values of the two types that meet in the comparison
  \<^verbatim>\<open>resource.needs_quorum == 1\<close>: a string and an integer are never equal. The
  truth value of a string is that it is not empty.
\<close>

datatype pyval = PyStr string | PyInt int

fun py_eq :: "pyval \<Rightarrow> pyval \<Rightarrow> bool" where
  "py_eq (PyStr a) (PyStr b) = (a = b)"
| "py_eq (PyInt a) (PyInt b) = (a = b)"
| "py_eq (PyStr a) (PyInt b) = False"
| "py_eq (PyInt a) (PyStr b) = False"

fun py_bool :: "pyval \<Rightarrow> bool" where
  "py_bool (PyStr a) = (a \<noteq> [])"
| "py_bool (PyInt a) = (a \<noteq> 0)"

text \<open>
  The messages of \<^verbatim>\<open>_audit_resource\<close>, with the resource id and the list that
  the f-string formats.
\<close>

datatype primitive_msg =
    Debug_active string "string list"
  | Log_without_quorum string "string list"
  | Log_not_managed string "string list"
  | Debug_non_unique_active string "string list"
  | Debug_non_unique_inactive string
  | Log_active_multiple string "string list"
  | Debug_inactive_orphan string
  | Log_not_served string
  | Log_not_served_inactive string "string list"
  | Debug_not_served_inactive string "string list"

text \<open>
  \<^verbatim>\<open>PrimitiveAudit._audit_resource\<close>. \<open>active\<close> is what
  \<^verbatim>\<open>cm.resource_location(resource.id)\<close> returns, \<open>inactive_nodes\<close> is
  \<^verbatim>\<open>self._inactive_nodes\<close>, \<open>warn_inactive\<close> the truth value of
  \<^verbatim>\<open>cm.env["warn-inactive"]\<close>. The result is the messages written and \<^verbatim>\<open>rc\<close>.
\<close>

definition audit_resource ::
  "AuditResource \<Rightarrow> bool \<Rightarrow> string list \<Rightarrow> string list \<Rightarrow> bool
   \<Rightarrow> primitive_msg list \<times> bool" where
  "audit_resource resource quorum active inactive_nodes warn_inactive =
     (if length active = 1 then
        (if quorum then ([Debug_active (res_id resource) active], True)
         else if py_eq (PyStr (needs_quorum resource)) (PyInt 1)
         then ([Log_without_quorum (res_id resource) active], False)
         else ([], True))
      else if \<not> py_bool (PyInt (managed resource)) then
        ([Log_not_managed (res_id resource) active], True)
      else if \<not> py_bool (PyInt (unique resource)) then
        (if length active > 1
         then ([Debug_non_unique_active (res_id resource) active], True)
         else ([Debug_non_unique_inactive (res_id resource)], True))
      else if length active > 1 then
        ([Log_active_multiple (res_id resource) active], False)
      else if py_bool (PyInt (orphan resource)) then
        ([Debug_inactive_orphan (res_id resource)], True)
      else if inactive_nodes = [] then
        ([Log_not_served (res_id resource)], False)
      else if warn_inactive then
        (if quorum \<or> \<not> py_bool (PyStr (needs_quorum resource))
         then ([Log_not_served_inactive (res_id resource) inactive_nodes], True)
         else ([Debug_not_served_inactive (res_id resource) inactive_nodes], True))
      else if quorum \<or> \<not> py_bool (PyStr (needs_quorum resource)) then
        ([Debug_not_served_inactive (res_id resource) inactive_nodes], True)
      else ([], True))"

text \<open>
  A line of \<^verbatim>\<open>crm_resource --list-cts\<close> for a managed, unique primitive that
  requires quorum (flags 0x22).
\<close>

definition quorum_resource_line :: string where
  "quorum_resource_line =
     ''Resource: primitive rsc1 rsc1 NA heartbeat ocf Dummy NA 1 34 0x0000000000000022''"

section \<open>GroupAudit\<close>

text \<open>
  The fields of an \<^verbatim>\<open>AuditConstraint\<close>; \<open>con_type\<close> is \<^verbatim>\<open>self.type\<close> and
  \<open>con_id\<close> is \<^verbatim>\<open>self.id\<close>.
\<close>

record AuditConstraint =
  con_line :: string
  con_type :: string
  con_id :: string
  rsc :: string
  target :: string
  score :: string
  rsc_role :: "string option"
  target_role :: "string option"

definition AuditConstraint_init :: "string \<Rightarrow> py_error + AuditConstraint" where
  "AuditConstraint_init l =
     (let flds = py_split l in
      if length flds < 8 then Inl IndexError
      else
        Inr \<lparr>con_line = l,
             con_type = flds ! 1,
             con_id = flds ! 2,
             rsc = flds ! 3,
             target = flds ! 4,
             score = flds ! 5,
             rsc_role = (if flds ! 6 = ''NA'' then None else Some (flds ! 6)),
             target_role = (if flds ! 7 = ''NA'' then None else Some (flds ! 7))\<rparr>)"

text \<open>
  What \<^verbatim>\<open>PrimitiveAudit._setup\<close> collects in a fresh audit object: the nodes
  expected up and the others, the resources and constraints read from the lines
  of \<^verbatim>\<open>crm_resource --list-cts\<close>, and the lines it does not recognise.
\<close>

record setup_state =
  active_nodes :: "string list"
  inactive_nodes :: "string list"
  resources :: "AuditResource list"
  constraints :: "AuditConstraint list"
  unknown_entries :: "string list"

fun classify_nodes ::
  "(string \<rightharpoonup> string) \<Rightarrow> string list \<Rightarrow> setup_state \<Rightarrow> py_error + setup_state" where
  "classify_nodes es [] s = Inr s"
| "classify_nodes es (node # rest) s =
     (case es node of
        None \<Rightarrow> Inl (KeyError node)
      | Some status \<Rightarrow>
          if status = ''up''
          then classify_nodes es rest (s\<lparr>active_nodes := active_nodes s @ [node]\<rparr>)
          else classify_nodes es rest (s\<lparr>inactive_nodes := inactive_nodes s @ [node]\<rparr>))"

fun read_entries :: "string list \<Rightarrow> setup_state \<Rightarrow> py_error + setup_state" where
  "read_entries [] s = Inr s"
| "read_entries (l # rest) s =
     (if take 8 l = ''Resource'' then
        (case AuditResource_init l of
           Inl e \<Rightarrow> Inl e
         | Inr r \<Rightarrow> read_entries rest (s\<lparr>resources := resources s @ [r]\<rparr>))
      else if take 10 l = ''Constraint'' then
        (case AuditConstraint_init l of
           Inl e \<Rightarrow> Inl e
         | Inr c \<Rightarrow> read_entries rest (s\<lparr>constraints := constraints s @ [c]\<rparr>))
      else read_entries rest (s\<lparr>unknown_entries := unknown_entries s @ [l]\<rparr>))"

text \<open>
  \<^verbatim>\<open>_setup\<close>: \<open>None\<close> stands for the return value False (no node is up, or the
  first up node has the empty name), \<open>Some s\<close> for True with what was collected.
  \<open>list_cts\<close> gives the output of \<^verbatim>\<open>crm_resource --list-cts\<close> on a node.
\<close>

definition audit_setup ::
  "(string \<rightharpoonup> string) \<Rightarrow> string list \<Rightarrow> (string \<Rightarrow> string list)
   \<Rightarrow> py_error + setup_state option" where
  "audit_setup es nodes list_cts =
     (case classify_nodes es nodes
             \<lparr>active_nodes = [], inactive_nodes = [], resources = [], constraints = [],
              unknown_entries = []\<rparr> of
        Inl e \<Rightarrow> Inl e
      | Inr s \<Rightarrow>
          (case active_nodes s of
             [] \<Rightarrow> Inr None
           | tgt # _ \<Rightarrow>
               if tgt = [] then Inr None
               else (case read_entries (list_cts tgt) s of
                       Inl e \<Rightarrow> Inl e
                     | Inr s' \<Rightarrow> Inr (Some s'))))"

text \<open>
  The messages of the group audit: child id, group id, and the nodes, the node
  and the expected location that the f-string formats.
\<close>

datatype group_msg =
    Log_child_active_more_than_once string string "string list"
  | Debug_child_stopped string string
  | Log_child_wrong_node string string string "string option"
  | Debug_child_active string string string

text \<open>The variables of the loops of \<^verbatim>\<open>GroupAudit.__call__\<close>.\<close>

record group_walk =
  first_match :: bool
  group_location :: "string option"
  group_result :: bool
  group_messages :: "group_msg list"

text \<open>
  The body of the inner loop for one resource; \<open>loc\<close> is
  \<^verbatim>\<open>cm.resource_location\<close>.
\<close>

definition group_child ::
  "(string \<Rightarrow> string list) \<Rightarrow> AuditResource \<Rightarrow> AuditResource \<Rightarrow> group_walk \<Rightarrow> group_walk" where
  "group_child loc grp child w =
     (if parent child \<noteq> Some (res_id grp) then w
      else
        (let nodes = loc (res_id child);
             w1 = (case nodes of
                     [] \<Rightarrow> w
                   | n0 # _ \<Rightarrow> if first_match w then w\<lparr>group_location := Some n0\<rparr> else w);
             w2 = w1\<lparr>first_match := False\<rparr>
         in
         case nodes of
           [] \<Rightarrow> w2\<lparr>group_location := None,
                     group_messages := group_messages w2
                        @ [Debug_child_stopped (res_id child) (res_id grp)]\<rparr>
         | n0 # more_nodes \<Rightarrow>
             if more_nodes \<noteq> [] then
               w2\<lparr>group_result := False,
                  group_messages := group_messages w2
                     @ [Log_child_active_more_than_once (res_id child) (res_id grp) nodes]\<rparr>
             else if Some n0 \<noteq> group_location w2 then
               w2\<lparr>group_result := False,
                  group_messages := group_messages w2
                     @ [Log_child_wrong_node (res_id child) (res_id grp) n0
                          (group_location w2)]\<rparr>
             else
               w2\<lparr>group_messages := group_messages w2
                     @ [Debug_child_active (res_id child) (res_id grp) n0]\<rparr>))"

fun walk_children ::
  "(string \<Rightarrow> string list) \<Rightarrow> AuditResource \<Rightarrow> AuditResource list \<Rightarrow> group_walk
   \<Rightarrow> group_walk" where
  "walk_children loc grp [] w = w"
| "walk_children loc grp (child # rest) w =
     walk_children loc grp rest (group_child loc grp child w)"

text \<open>
  The outer loop: \<open>all\<close> is \<^verbatim>\<open>self._resources\<close>, the list argument the part of it
  still to visit. A resource that is not a group is skipped; for a group,
  \<^verbatim>\<open>first_match\<close> and \<^verbatim>\<open>group_location\<close> start afresh.
\<close>

fun walk_groups ::
  "(string \<Rightarrow> string list) \<Rightarrow> AuditResource list \<Rightarrow> AuditResource list \<Rightarrow> group_walk
   \<Rightarrow> group_walk" where
  "walk_groups loc all [] w = w"
| "walk_groups loc all (grp # rest) w =
     (if res_type grp \<noteq> ''group'' then walk_groups loc all rest w
      else walk_groups loc all rest
             (walk_children loc grp all (w\<lparr>first_match := True, group_location := None\<rparr>)))"

text \<open>\<^verbatim>\<open>GroupAudit.__call__\<close>: the messages written and the value returned.\<close>

definition GroupAudit_call ::
  "(string \<rightharpoonup> string) \<Rightarrow> string list \<Rightarrow> (string \<Rightarrow> string list) \<Rightarrow> (string \<Rightarrow> string list)
   \<Rightarrow> py_error + (group_msg list \<times> bool)" where
  "GroupAudit_call es nodes list_cts loc =
     (case audit_setup es nodes list_cts of
        Inl e \<Rightarrow> Inl e
      | Inr None \<Rightarrow> Inr ([], True)
      | Inr (Some s) \<Rightarrow>
          (let w = walk_groups loc (resources s) (resources s)
                     \<lparr>first_match = True, group_location = None, group_result = True,
                      group_messages = []\<rparr>
           in Inr (group_messages w, group_result w)))"

text \<open>
  Notions used to state the properties of the group audit: the locations of the
  children of a group, in listing order, and the test that the inner loop applies
  to the children after the first one, given the expected location.
\<close>

definition child_locations ::
  "(string \<Rightarrow> string list) \<Rightarrow> AuditResource list \<Rightarrow> AuditResource \<Rightarrow> string list list" where
  "child_locations loc all grp =
     map (\<lambda>c. loc (res_id c)) (filter (\<lambda>c. parent c = Some (res_id grp)) all)"

fun later_ok :: "string option \<Rightarrow> string list list \<Rightarrow> bool" where
  "later_ok gl [] = True"
| "later_ok gl ([] # rest) = later_ok None rest"
| "later_ok gl ([n] # rest) = (gl = Some n \<and> later_ok gl rest)"
| "later_ok gl ((n # m # ms) # rest) = False"

definition first_location :: "string list list \<Rightarrow> string option" where
  "first_location locs =
     (case locs of [] \<Rightarrow> None | [] # _ \<Rightarrow> None | (n # _) # _ \<Rightarrow> Some n)"

text \<open>
  A group \<^verbatim>\<open>grp1\<close> with two children: \<^verbatim>\<open>child1\<close> is stopped, \<^verbatim>\<open>child2\<close> is
  active on \<^verbatim>\<open>node1\<close> only.
\<close>

definition group_lines :: "string list" where
  "group_lines =
     [''Resource: group grp1 grp1 NA NA NA NA NA 0 34 0x22'',
      ''Resource: primitive child1 child1 grp1 heartbeat ocf Dummy NA 0 34 0x22'',
      ''Resource: primitive child2 child2 grp1 heartbeat ocf Dummy NA 0 34 0x22'']"

definition group_loc :: "string \<Rightarrow> string list" where
  "group_loc rid = (if rid = ''child2'' then [''node1''] else [])"

definition group_list_cts :: "string \<Rightarrow> string list" where
  "group_list_cts n = group_lines"

definition one_node_up :: "string \<rightharpoonup> string" where
  "one_node_up = [''node1'' \<mapsto> ''up'']"

definition all_on_node1 :: "string \<Rightarrow> string list" where
  "all_on_node1 rid = [''node1'']"

text \<open>
  The placement that the group audit accepts: the children are, in listing
  order, \<open>k\<close> children each active on the one node \<open>n\<close> only, followed by stopped
  children only.
\<close>

definition placed :: "string list list \<Rightarrow> bool" where
  "placed locs = (\<exists>k n. locs = replicate k [n] @ replicate (length locs - k) [])"

section \<open>CIBAudit\<close>

text \<open>
  What the cluster manager does for the audit: \<open>cib_query\<close> is the exit status and
  the output of \<^verbatim>\<open>cm["CibQuery"]\<close> on a node, \<open>copy\<close> the exit status of
  \<^verbatim>\<open>cm.rsh.copy(filename, destination)\<close>, and \<open>crm_diff\<close> the exit status and output
  of \<^verbatim>\<open>crm_diff\<close> run on the reference node with the new and the original
  file.
\<close>

record cib_cm =
  cib_query :: "string \<Rightarrow> int \<times> string list"
  copy :: "string \<Rightarrow> string \<Rightarrow> int"
  crm_diff :: "string \<Rightarrow> string \<Rightarrow> string \<Rightarrow> int \<times> string list"

datatype cib_msg =
    Log_could_not_retrieve
  | Log_could_not_store
  | Log_no_configuration string
  | Log_diff_failed string string int
  | Debug_cib_diff string string string
  | Debug_cib_diff_ignoring string string string

definition cib_filename :: "string \<Rightarrow> string" where
  "cib_filename node = ''/tmp/ctsaudit.'' @ node @ ''.xml''"

text \<open>
  \<^verbatim>\<open>_store_remote_cib(node, target)\<close>: the messages written and the file name, or
  \<^verbatim>\<open>None\<close>. A target that is \<^verbatim>\<open>None\<close> or empty is replaced by the node itself.
\<close>

definition store_remote_cib ::
  "cib_cm \<Rightarrow> string \<Rightarrow> string option \<Rightarrow> cib_msg list \<times> string option" where
  "store_remote_cib cm node tgt =
     (let filename = cib_filename node;
          tgt' = (case tgt of None \<Rightarrow> node | Some t \<Rightarrow> if t = [] then node else t)
      in
      if fst (cib_query cm node) \<noteq> 0 then ([Log_could_not_retrieve], None)
      else if copy cm filename (''root@'' @ tgt' @ '':'' @ filename) \<noteq> 0
      then ([Log_could_not_store], None)
      else ([], Some filename))"

text \<open>The loop over the lines of the \<^verbatim>\<open>crm_diff\<close> output.\<close>

fun diff_lines ::
  "string \<Rightarrow> string \<Rightarrow> string list \<Rightarrow> cib_msg list \<times> bool \<Rightarrow> cib_msg list \<times> bool" where
  "diff_lines node0 node [] r = r"
| "diff_lines node0 node (l # rest) r =
     (if \<not> contains ''<diff/>'' l
      then diff_lines node0 node rest (fst r @ [Debug_cib_diff node0 node l], False)
      else diff_lines node0 node rest (fst r @ [Debug_cib_diff_ignoring node0 node l], snd r))"

text \<open>The variables of the loop of \<^verbatim>\<open>_audit_cib_contents\<close>.\<close>

record cib_loop =
  cib_passed :: bool
  node0 :: "string option"
  node0_xml :: "string option"
  cib_messages :: "cib_msg list"

definition cib_node :: "cib_cm \<Rightarrow> string \<Rightarrow> cib_loop \<Rightarrow> cib_loop" where
  "cib_node cm node s =
     (let stored = store_remote_cib cm node (node0 s);
          s1 = s\<lparr>cib_messages := cib_messages s @ fst stored\<rparr>
      in
      case snd stored of
        None \<Rightarrow>
          s1\<lparr>cib_passed := False,
             cib_messages := cib_messages s1 @ [Log_no_configuration node]\<rparr>
      | Some node_xml \<Rightarrow>
          (case node0 s1 of
             None \<Rightarrow> s1\<lparr>node0 := Some node, node0_xml := Some node_xml\<rparr>
           | Some n0 \<Rightarrow>
               (case node0_xml s1 of
                  None \<Rightarrow>
                    s1\<lparr>cib_passed := False,
                       cib_messages := cib_messages s1 @ [Log_no_configuration n0]\<rparr>
                | Some n0_xml \<Rightarrow>
                    (let d = crm_diff cm n0 node_xml n0_xml;
                         r1 = (if fst d \<noteq> 0
                               then (cib_messages s1 @ [Log_diff_failed n0_xml node_xml (fst d)],
                                     False)
                               else (cib_messages s1, cib_passed s1));
                         r2 = diff_lines n0 node (snd d) r1
                     in s1\<lparr>cib_passed := snd r2, cib_messages := fst r2\<rparr>))))"

fun cib_nodes :: "cib_cm \<Rightarrow> string list \<Rightarrow> cib_loop \<Rightarrow> cib_loop" where
  "cib_nodes cm [] s = s"
| "cib_nodes cm (node # rest) s = cib_nodes cm rest (cib_node cm node s)"

text \<open>\<^verbatim>\<open>_audit_cib_contents\<close>: the messages written and \<^verbatim>\<open>passed\<close>.\<close>

definition audit_cib_contents :: "cib_cm \<Rightarrow> string \<Rightarrow> cib_msg list \<times> bool" where
  "audit_cib_contents cm hostlist =
     (let s = cib_nodes cm (py_split hostlist)
                \<lparr>cib_passed = True, node0 = None, node0_xml = None, cib_messages = []\<rparr>
      in (cib_messages s, cib_passed s))"

text \<open>
  Notions used to state the properties of the CIB audit. \<open>produces\<close>: the node's
  configuration is retrieved and stored on the target. \<open>diff_clean\<close>: every line
  of the \<^verbatim>\<open>crm_diff\<close> output of the node against the reference node contains the
  marker. \<open>diff_status\<close>: the exit status of that \<^verbatim>\<open>crm_diff\<close>.
\<close>

definition produces :: "cib_cm \<Rightarrow> string \<Rightarrow> string option \<Rightarrow> bool" where
  "produces cm node tgt = (snd (store_remote_cib cm node tgt) \<noteq> None)"

definition diff_clean :: "cib_cm \<Rightarrow> string \<Rightarrow> string \<Rightarrow> bool" where
  "diff_clean cm n0 node =
     list_all (contains ''<diff/>'')
       (snd (crm_diff cm n0 (cib_filename node) (cib_filename n0)))"

definition diff_status :: "cib_cm \<Rightarrow> string \<Rightarrow> string \<Rightarrow> int" where
  "diff_status cm n0 node = fst (crm_diff cm n0 (cib_filename node) (cib_filename n0))"

text \<open>
  Two cluster managers for a partition \<^verbatim>\<open>n1 n2\<close>: every query and copy
  succeeds; \<^verbatim>\<open>crm_diff\<close> prints nothing and exits with the given status.
\<close>

definition silent_diff :: "int \<Rightarrow> cib_cm" where
  "silent_diff status =
     \<lparr>cib_query = (\<lambda>n. (0, [''<cib/>'' @ [CHR 0x0A]])),
      copy = (\<lambda>f d. 0),
      crm_diff = (\<lambda>n0 new orig. (status, []))\<rparr>"

section \<open>FileAudit\<close>

text \<open>
  The output of the remote commands of the audit: \<open>ls_cores node path\<close> for
  \<^verbatim>\<open>ls -al {path} | grep core.[0-9]\<close>, \<open>ls_shm node\<close> for
  \<^verbatim>\<open>ls -al /dev/shm | grep qb-\<close> and \<open>ps_out node\<close> for the process listing.
\<close>

record file_cm =
  ls_cores :: "string \<Rightarrow> string \<Rightarrow> string list"
  ls_shm :: "string \<Rightarrow> string list"
  ps_out :: "string \<Rightarrow> string list"

datatype file_msg =
    Log_core_file string string string
  | Log_stale_ipc string string
  | Debug_ps string string
  | Debug_skipping string

text \<open>
  The loop of \<^verbatim>\<open>_find_core_on_fs\<close> over the lines of the listing. The state is
  \<^verbatim>\<open>self.known\<close>, the messages written, and \<^verbatim>\<open>found\<close>; the first argument is the
  tool name that the message names.
\<close>

fun core_lines ::
  "string \<Rightarrow> string \<Rightarrow> string list \<Rightarrow> string list \<times> file_msg list \<times> bool
   \<Rightarrow> string list \<times> file_msg list \<times> bool" where
  "core_lines tool node [] s = s"
| "core_lines tool node (l # rest) s =
     (case s of (known, msgs, found) \<Rightarrow>
        if py_strip l \<in> set known then core_lines tool node rest (known, msgs, found)
        else core_lines tool node rest
               (known @ [py_strip l], msgs @ [Log_core_file tool node (py_strip l)], True))"

definition find_core_on_fs ::
  "file_cm \<Rightarrow> string \<Rightarrow> string \<Rightarrow> string \<Rightarrow> string list \<times> file_msg list
   \<Rightarrow> string list \<times> file_msg list \<times> bool" where
  "find_core_on_fs cm node path tool s =
     core_lines tool node (ls_cores cm node path) (fst s, snd s, False)"

text \<open>
  The loop over the stale IPC files of a node: the messages, \<^verbatim>\<open>result\<close> and
  \<^verbatim>\<open>clean\<close>.
\<close>

fun stale_lines ::
  "string \<Rightarrow> string list \<Rightarrow> file_msg list \<times> bool \<times> bool \<Rightarrow> file_msg list \<times> bool \<times> bool" where
  "stale_lines node [] s = s"
| "stale_lines node (l # rest) s =
     stale_lines node rest (fst s @ [Log_stale_ipc node l], False, True)"

text \<open>
  The body of the loop of \<^verbatim>\<open>FileAudit.__call__\<close> for one node; the state is
  \<^verbatim>\<open>self.known\<close>, the messages written and \<^verbatim>\<open>result\<close>. \<open>es\<close> is
  \<^verbatim>\<open>cm.expected_status\<close>, read with \<^verbatim>\<open>get\<close>.
\<close>

definition file_node ::
  "file_cm \<Rightarrow> (string \<rightharpoonup> string) \<Rightarrow> string \<Rightarrow> string list \<times> file_msg list \<times> bool
   \<Rightarrow> string list \<times> file_msg list \<times> bool" where
  "file_node cm es node s =
     (case s of (known, msgs, result) \<Rightarrow>
      (case find_core_on_fs cm node ''/var/lib/pacemaker/cores/*'' ''Pacemaker'' (known, msgs) of
         (known1, msgs1, found1) \<Rightarrow>
      (case find_core_on_fs cm node ''/var/lib/corosync'' ''Corosync'' (known1, msgs1) of
         (known2, msgs2, found2) \<Rightarrow>
        (let result2 = (if found2 then False else if found1 then False else result) in
         if es node = Some ''down'' then
           (case stale_lines node (ls_shm cm node) (msgs2, result2, False) of
              (msgs3, result3, clean) \<Rightarrow>
                if clean
                then (known2, msgs3 @ map (Debug_ps node) (ps_out cm node), result3)
                else (known2, msgs3, result3))
         else (known2, msgs2 @ [Debug_skipping node], result2)))))"

fun file_nodes ::
  "file_cm \<Rightarrow> (string \<rightharpoonup> string) \<Rightarrow> string list \<Rightarrow> string list \<times> file_msg list \<times> bool
   \<Rightarrow> string list \<times> file_msg list \<times> bool" where
  "file_nodes cm es [] s = s"
| "file_nodes cm es (node # rest) s = file_nodes cm es rest (file_node cm es node s)"

text \<open>
  \<^verbatim>\<open>FileAudit.__call__\<close> on an audit object whose \<^verbatim>\<open>self.known\<close> is \<open>known\<close>: the
  new \<^verbatim>\<open>self.known\<close>, the messages of this run, and the value returned.
\<close>

definition FileAudit_call ::
  "file_cm \<Rightarrow> (string \<rightharpoonup> string) \<Rightarrow> string list \<Rightarrow> string list
   \<Rightarrow> string list \<times> file_msg list \<times> bool" where
  "FileAudit_call cm es nodes known = file_nodes cm es nodes (known, [], True)"

text \<open>
  Notions used to state the properties of the file audit: the stripped lines of
  the two core listings of a node, the test for a core-file message, and the
  nodes expected down that list a stale IPC file.
\<close>

definition core_listing :: "file_cm \<Rightarrow> string \<Rightarrow> string list" where
  "core_listing cm node =
     map py_strip (ls_cores cm node ''/var/lib/pacemaker/cores/*'')
     @ map py_strip (ls_cores cm node ''/var/lib/corosync'')"

fun is_core_msg :: "file_msg \<Rightarrow> bool" where
  "is_core_msg (Log_core_file tool node l) = True"
| "is_core_msg m = False"

definition stale_nodes :: "file_cm \<Rightarrow> (string \<rightharpoonup> string) \<Rightarrow> string list \<Rightarrow> string list" where
  "stale_nodes cm es nodes =
     filter (\<lambda>n. es n = Some ''down'' \<and> ls_shm cm n \<noteq> []) nodes"

text \<open>\<open>reported_known\<close>: every line of a core-file message is in \<^verbatim>\<open>self.known\<close>.\<close>

definition reported_known :: "string list \<times> file_msg list \<times> bool \<Rightarrow> bool" where
  "reported_known s =
     (\<forall>tool node l. Log_core_file tool node l \<in> set (fst (snd s)) \<longrightarrow> l \<in> set (fst s))"

text \<open>Two nodes, both up; the first has a Pacemaker core file.\<close>

definition core_on_n1 :: file_cm where
  "core_on_n1 =
     \<lparr>ls_cores = (\<lambda>n p. if n = ''n1'' \<and> p = ''/var/lib/pacemaker/cores/*''
                         then [''-rw------- 1 root root 0 Jan 1 core.123'' @ [CHR 0x0A]]
                         else []),
      ls_shm = (\<lambda>n. []),
      ps_out = (\<lambda>n. [])\<rparr>"

definition both_up :: "string \<rightharpoonup> string" where
  "both_up = [''n1'' \<mapsto> ''up'', ''n2'' \<mapsto> ''up'']"

section \<open>LogAudit\<close>


















section \<open>Properties of \<^verbatim>\<open>audit_list\<close>\<close>

lemma audit_list_loop_filter:
  "list_all (\<lambda>a. a \<noteq> ClusterAudit) cs \<Longrightarrow>
   audit_list_loop d cs acc = Inr (acc @ filter (\<lambda>a. is_applicable d a = Inr True) cs)"
proof (induction cs arbitrary: acc)
  case Nil
  then show ?case by simp
next
  case (Cons c cs)
  then have tl: "list_all (\<lambda>a. a \<noteq> ClusterAudit) cs" and hd: "c \<noteq> ClusterAudit"
    by simp_all
  from hd have "\<exists>b. is_applicable d c = Inr b"
    by (cases c)
       (auto simp add: LogAudit_is_applicable_def DiskAudit_is_applicable_def
          FileAudit_is_applicable_def PrimitiveAudit_is_applicable_def
          ControllerStateAudit_is_applicable_def CIBAudit_is_applicable_def
          PartitionAudit_is_applicable_def)
  then obtain b where b: "is_applicable d c = Inr b" ..
  show ?case
    using Cons.IH [OF tl] b by simp
qed

text \<open>
  Claim C8. Whatever the cluster manager holds, \<^verbatim>\<open>is_applicable\<close> of
  PrimitiveAudit, of its subclasses GroupAudit, CloneAudit and ColocationAudit, of
  ControllerStateAudit, of CIBAudit and of PartitionAudit returns False, so none of
  them is ever in the list that \<^verbatim>\<open>audit_list\<close> returns; \<^verbatim>\<open>audit_list\<close> returns
  exactly the classes of the fixed catalogue whose \<^verbatim>\<open>is_applicable\<close> is true, in
  catalogue order.
\<close>

theorem audit_list_applicable_only:
  "is_applicable d PrimitiveAudit = Inr False
   \<and> is_applicable d GroupAudit = Inr False
   \<and> is_applicable d CloneAudit = Inr False
   \<and> is_applicable d ColocationAudit = Inr False
   \<and> is_applicable d ControllerStateAudit = Inr False
   \<and> is_applicable d CIBAudit = Inr False
   \<and> is_applicable d PartitionAudit = Inr False
   \<and> audit_list d = Inr (filter (\<lambda>a. is_applicable d a = Inr True) audit_catalog)
   \<and> (\<exists>as. audit_list d = Inr as
         \<and> set as \<inter> {PrimitiveAudit, GroupAudit, CloneAudit, ColocationAudit,
                         ControllerStateAudit, CIBAudit, PartitionAudit} = {}
         \<and> set as \<subseteq> {DiskAudit, FileAudit, LogAudit})"
proof -
  have cat: "list_all (\<lambda>a. a \<noteq> ClusterAudit) audit_catalog"
    by (simp add: audit_catalog_def)
  have eq: "audit_list d = Inr (filter (\<lambda>a. is_applicable d a = Inr True) audit_catalog)"
    unfolding audit_list_def using audit_list_loop_filter [OF cat, of d "[]"] by simp
  have flt: "filter (\<lambda>a. is_applicable d a = Inr True) audit_catalog
             = (if d then [DiskAudit, FileAudit] else [DiskAudit, FileAudit, LogAudit])"
    by (simp add: audit_catalog_def LogAudit_is_applicable_def DiskAudit_is_applicable_def
          FileAudit_is_applicable_def PrimitiveAudit_is_applicable_def
          ControllerStateAudit_is_applicable_def CIBAudit_is_applicable_def
          PartitionAudit_is_applicable_def)
  show ?thesis
    using eq flt
    by (simp add: PrimitiveAudit_is_applicable_def ControllerStateAudit_is_applicable_def
          CIBAudit_is_applicable_def PartitionAudit_is_applicable_def)
qed

section \<open>Properties of PartitionAudit\<close>

lemma audit_node_result:
  assumes "audit_node cm n (st, lo) = Inr (st', lo')"
  shows "node_epoch st' = (node_epoch st)(n \<mapsto> epoch_of cm n)"
    and "node_state st' = (node_state st)(n \<mapsto> state_of cm n)"
    and "expected_status st' =
           (expected_status st)(n \<mapsto> (if epoch_true (epoch_of cm n) then ''up'' else ''down''))"
    and "lo' = lower (epoch_of cm n) lo"
    and "\<not> epoch_true (epoch_of cm n) \<Longrightarrow> Log_disappeared n \<in> set (messages st')"
    and "set (messages st) \<subseteq> set (messages st')"
  using assms
  by (auto simp add: audit_node_def say_def lower_def Let_def fun_upd_idem epoch_of_def state_of_def
      split: option.splits sum.splits if_splits)

lemma audit_nodes_result:
  "audit_nodes cm ns (st, lo) = Inr (st', lo') \<Longrightarrow>
     recorded cm ns st st'
     \<and> lo' = fold lower (map (epoch_of cm) ns) lo
     \<and> (\<forall>n\<in>set ns. \<not> epoch_true (epoch_of cm n) \<longrightarrow> Log_disappeared n \<in> set (messages st'))
     \<and> set (messages st) \<subseteq> set (messages st')"
proof (induction ns arbitrary: st lo)
  case Nil
  then show ?case by (simp add: recorded_def)
next
  case (Cons a ns)
  from Cons.prems obtain st1 lo1 where
    step: "audit_node cm a (st, lo) = Inr (st1, lo1)" and
    rest: "audit_nodes cm ns (st1, lo1) = Inr (st', lo')"
    by (auto split: sum.splits)
  note r = audit_node_result [OF step]
  note ih = Cons.IH [OF rest]
  have rec: "recorded cm (a # ns) st st'"
    using ih r(1,2,3) by (auto simp add: recorded_def fun_eq_iff)
  have lo: "lo' = fold lower (map (epoch_of cm) (a # ns)) lo"
    using ih r(4) by simp
  have msgs: "set (messages st) \<subseteq> set (messages st')"
    using ih r(6) by blast
  have dis: "\<forall>n\<in>set (a # ns). \<not> epoch_true (epoch_of cm n) \<longrightarrow> Log_disappeared n \<in> set (messages st')"
    using ih r(5) by auto
  show ?case using rec lo msgs dis by blast
qed

lemma dc_nodes_cong:
  "expected_status st' = expected_status st \<Longrightarrow> node_state st' = node_state st \<Longrightarrow>
   dc_nodes cm st' ns = dc_nodes cm st ns"
  by (simp add: dc_nodes_def)

lemma dc_nodes_append: "dc_nodes cm st (xs @ ys) = dc_nodes cm st xs @ dc_nodes cm st ys"
  by (simp add: dc_nodes_def)

lemma check_dc_result:
  assumes "check_dc cm lo n (st, dcs, p) = Inr (st', dcs', p')"
  shows "expected_status st' = expected_status st"
    and "node_epoch st' = node_epoch st"
    and "node_state st' = node_state st"
    and "set (messages st) \<subseteq> set (messages st')"
    and "dcs' = dcs @ dc_nodes cm st [n]"
    and "p' = (p \<and> \<not> (\<exists>l\<in>set (dc_nodes cm st [n]). stale lo (the (node_epoch st l))))"
  using assms
  by (auto simp add: check_dc_def say_def dc_nodes_def stale_def
      split: option.splits if_splits)

lemma check_dcs_result:
  "check_dcs cm lo ns (st, dcs, p) = Inr (st', dcs', p') \<Longrightarrow>
     expected_status st' = expected_status st
     \<and> node_epoch st' = node_epoch st
     \<and> node_state st' = node_state st
     \<and> set (messages st) \<subseteq> set (messages st')
     \<and> dcs' = dcs @ dc_nodes cm st ns
     \<and> p' = (p \<and> \<not> (\<exists>l\<in>set (dc_nodes cm st ns). stale lo (the (node_epoch st l))))"
proof (induction ns arbitrary: st dcs p)
  case Nil
  then show ?case by (simp add: dc_nodes_def)
next
  case (Cons a ns)
  from Cons.prems obtain st1 dcs1 p1 where
    step: "check_dc cm lo a (st, dcs, p) = Inr (st1, dcs1, p1)" and
    rest: "check_dcs cm lo ns (st1, dcs1, p1) = Inr (st', dcs', p')"
    by (auto split: sum.splits)
  note r = check_dc_result [OF step]
  note ih = Cons.IH [OF rest]
  have same: "dc_nodes cm st1 ns = dc_nodes cm st ns"
    using r(1,3) by (rule dc_nodes_cong)
  have app: "dc_nodes cm st (a # ns) = dc_nodes cm st [a] @ dc_nodes cm st ns"
    using dc_nodes_append [of cm st "[a]" ns] by simp
  show ?case
    using ih r same app by auto
qed

lemma dump_nodes_result:
  "dump_nodes ns st = Inr st' \<Longrightarrow>
     expected_status st' = expected_status st
     \<and> node_epoch st' = node_epoch st
     \<and> node_state st' = node_state st
     \<and> set (messages st) \<subseteq> set (messages st')"
proof (induction ns arbitrary: st)
  case Nil
  then show ?case by simp
next
  case (Cons a ns)
  show ?case
  proof (cases "expected_status st a = Some ''up''")
    case True
    with Cons.prems obtain e s where
      rest: "dump_nodes ns (say (Log_epoch_state e s) st) = Inr st'"
      by (auto split: option.splits)
    from Cons.IH [OF rest] show ?thesis by (auto simp add: say_def)
  next
    case False
    with Cons.prems have rest: "dump_nodes ns st = Inr st'"
      by (auto split: option.splits if_splits)
    from Cons.IH [OF rest] show ?thesis .
  qed
qed

lemma report_dcs_result:
  assumes "report_dcs ns (st, dcs, p) = Inr (st', p')"
  shows "expected_status st' = expected_status st"
    and "node_epoch st' = node_epoch st"
    and "node_state st' = node_state st"
    and "set (messages st) \<subseteq> set (messages st')"
    and "dcs = [] \<Longrightarrow> Log_dc_not_found 0 [] ns \<in> set (messages st')"
    and "p' = (p \<and> length dcs \<le> 1)"
  using assms
  by (auto simp add: report_dcs_def say_def Let_def
      split: if_splits sum.splits dest!: dump_nodes_result)

lemma true_epochs_simps [simp]:
  "true_epochs [] = []"
  "true_epochs (e # es) = (if epoch_true e then the e # true_epochs es else true_epochs es)"
  by (auto simp add: true_epochs_def epoch_true_def split: option.splits)

lemma Min_insert_insert:
  "finite S \<Longrightarrow> Min (insert a (insert b S)) = Min (insert (min a b) S)"
  by (cases "S = {}") (simp_all add: min.assoc)

lemma fold_lower_Some:
  "fold lower es (Some m) = Some (Min (insert m (set (true_epochs es))))"
proof (induction es arbitrary: m)
  case Nil
  then show ?case by simp
next
  case (Cons e es)
  show ?case
  proof (cases "epoch_true e")
    case False
    then show ?thesis using Cons.IH [of m] by (simp add: lower_def)
  next
    case True
    then obtain i where e: "e = Some i" by (cases e) (simp_all add: epoch_true_def)
    have fin: "finite (set (true_epochs es))" by simp
    show ?thesis
    proof (cases "i < m")
      case True
      then have "lower e (Some m) = Some i" using e \<open>epoch_true e\<close> by (simp add: lower_def)
      moreover have "Min (insert i (set (true_epochs es))) = Min (insert m (insert i (set (true_epochs es))))"
        using True Min_insert_insert [OF fin, of m i] by (simp add: min_def)
      ultimately show ?thesis using Cons.IH [of i] e \<open>epoch_true e\<close> by simp
    next
      case False
      then have "lower e (Some m) = Some m" using e by (simp add: lower_def)
      moreover have "Min (insert m (set (true_epochs es))) = Min (insert m (insert i (set (true_epochs es))))"
        using False Min_insert_insert [OF fin, of m i] by (simp add: min_def)
      ultimately show ?thesis using Cons.IH [of m] e \<open>epoch_true e\<close> by simp
    qed
  qed
qed

lemma fold_lower_None:
  "fold lower es None = (if true_epochs es = [] then None else Some (Min (set (true_epochs es))))"
proof (induction es)
  case Nil
  then show ?case by simp
next
  case (Cons e es)
  show ?case
  proof (cases "epoch_true e")
    case False
    then show ?thesis using Cons.IH by (simp add: lower_def)
  next
    case True
    then obtain i where e: "e = Some i" by (cases e) (simp_all add: epoch_true_def)
    have "lower e None = Some i" using e True by (simp add: lower_def)
    then show ?thesis using True e fold_lower_Some [of es i] by simp
  qed
qed

lemma recorded_say: "recorded cm ns (say m st) st' = recorded cm ns st st'"
  by (simp add: recorded_def say_def cong: if_cong)

lemma produced_epochs_recorded:
  "recorded cm ns st st' \<Longrightarrow> produced_epochs st' ns = true_epochs (map (epoch_of cm) ns)"
  by (simp add: recorded_def produced_epochs_def true_epochs_def map_idI cong: map_cong)

lemma audit_partition_result:
  assumes run: "audit_partition cm st ps = Inr (st', passed)"
  defines "ns \<equiv> py_split ps"
  defines "lo \<equiv> fold lower (map (epoch_of cm) ns) None"
  shows "recorded cm ns st st'"
    and "passed = (epoch_true lo \<and> length (dc_nodes cm st' ns) \<le> 1
                   \<and> \<not> (\<exists>l\<in>set (dc_nodes cm st' ns). stale lo (the (node_epoch st' l))))"
    and "dc_nodes cm st' ns = [] \<Longrightarrow> Log_dc_not_found 0 [] ns \<in> set (messages st')"
    and "\<not> epoch_true lo \<Longrightarrow> Log_lowest_not_determined ps \<in> set (messages st')"
    and "\<forall>n\<in>set ns. \<not> epoch_true (epoch_of cm n) \<longrightarrow> Log_disappeared n \<in> set (messages st')"
proof -
  from run obtain st1 lo1 where
    l1: "audit_nodes cm ns (say (Debug_auditing ps) st, None) = Inr (st1, lo1)"
    unfolding audit_partition_def ns_def by (auto simp add: Let_def split: sum.splits)
  define q where "q = (if \<not> epoch_true lo1
                    then (say (Log_lowest_not_determined ps) st1, [] :: string list, False)
                    else (st1, [], True))"
  from run l1 obtain st2 dcs p2 where
    l2: "check_dcs cm lo1 ns q = Inr (st2, dcs, p2)" and
    l3: "report_dcs ns (st2, dcs, p2) = Inr (st', passed)"
    unfolding audit_partition_def ns_def q_def
    by (auto simp add: Let_def split: sum.splits if_splits)
  note r1 = audit_nodes_result [OF l1]
  have lo1: "lo1 = lo" using r1 by (simp add: lo_def)
  obtain stq where q: "q = (stq, [], epoch_true lo1)" and
    stq: "expected_status stq = expected_status st1" "node_epoch stq = node_epoch st1"
         "node_state stq = node_state st1" "set (messages st1) \<subseteq> set (messages stq)"
         "\<not> epoch_true lo1 \<Longrightarrow> Log_lowest_not_determined ps \<in> set (messages stq)"
    by (cases "epoch_true lo1") (auto simp add: q_def say_def)
  note r2 = check_dcs_result [OF l2 [unfolded q]]
  note r3 = report_dcs_result [OF l3]
  have f1: "expected_status st' = expected_status st1" using r2 r3 stq by simp
  have f2: "node_epoch st' = node_epoch st1" using r2 r3 stq by simp
  have f3: "node_state st' = node_state st1" using r2 r3 stq by simp
  have m1: "set (messages st1) \<subseteq> set (messages st')" using r2 r3(4) stq(4) by blast
  have m2: "set (messages stq) \<subseteq> set (messages st')" using r2 r3(4) by blast
  show rec: "recorded cm ns st st'"
    using r1 f1 f2 f3 recorded_say [of cm ns "Debug_auditing ps" st st1]
    by (simp add: recorded_def)
  have dcs: "dcs = dc_nodes cm st' ns"
    using r2 dc_nodes_cong [of st' stq cm ns] f1 f3 stq by simp
  show "passed = (epoch_true lo \<and> length (dc_nodes cm st' ns) \<le> 1
                   \<and> \<not> (\<exists>l\<in>set (dc_nodes cm st' ns). stale lo (the (node_epoch st' l))))"
    using r3(6) r2 dcs lo1 f2 stq(2) by auto
  show "dc_nodes cm st' ns = [] \<Longrightarrow> Log_dc_not_found 0 [] ns \<in> set (messages st')"
    using r3(5) dcs by simp
  show "\<not> epoch_true lo \<Longrightarrow> Log_lowest_not_determined ps \<in> set (messages st')"
    using stq(5) m2 lo1 by blast
  show "\<forall>n\<in>set ns. \<not> epoch_true (epoch_of cm n) \<longrightarrow> Log_disappeared n \<in> set (messages st')"
    using r1 m1 by blast
qed

lemma dc_nodes_up:
  "recorded cm ns st st' \<Longrightarrow> l \<in> set (dc_nodes cm st' ns) \<Longrightarrow>
   l \<in> set ns \<and> epoch_true (epoch_of cm l) \<and> node_epoch st' l = Some (epoch_of cm l)"
  by (auto simp add: recorded_def dc_nodes_def split: if_splits)

lemma true_epochs_mem:
  "n \<in> set ns \<Longrightarrow> epoch_true (f n) \<Longrightarrow> the (f n) \<in> set (true_epochs (map f ns))"
  by (induction ns) auto

text \<open>
  The leader check over the epochs that the audit records (the values left in
  \<^verbatim>\<open>self._node_epoch\<close>, after \<^verbatim>\<open>strip\<close> and \<^verbatim>\<open>_trim2int\<close>). For a partition that
  \<^verbatim>\<open>_audit_partition\<close> audits to the end, among the nodes expected up: if more
  than one passes the leader test, the audit fails; if exactly one leader is
  found, the audit fails if and only if the epoch recorded for that leader differs
  from the minimum of the recorded epochs that are neither missing nor 0; if no
  leader is found, this is logged, and the audit fails only when no such epoch was
  recorded.
\<close>

lemma partition_leader_check:
  assumes "audit_partition cm st ps = Inr (st', passed)"
  shows "(1 < length (dc_nodes cm st' (py_split ps)) \<longrightarrow> \<not> passed)
    \<and> (\<forall>l. dc_nodes cm st' (py_split ps) = [l] \<longrightarrow>
          (\<not> passed) =
          (node_epoch st' l \<noteq> Some (Some (Min (set (produced_epochs st' (py_split ps)))))))
    \<and> (dc_nodes cm st' (py_split ps) = [] \<longrightarrow>
          Log_dc_not_found 0 [] (py_split ps) \<in> set (messages st')
          \<and> passed = (produced_epochs st' (py_split ps) \<noteq> []))"
proof -
  define ns where "ns = py_split ps"
  define lo where "lo = fold lower (map (epoch_of cm) ns) None"
  note r = audit_partition_result [OF assms, folded ns_def, folded lo_def]
  have pe: "produced_epochs st' ns = true_epochs (map (epoch_of cm) ns)"
    using r(1) by (rule produced_epochs_recorded)
  have lo: "lo = (if produced_epochs st' ns = [] then None
                  else Some (Min (set (produced_epochs st' ns))))"
    unfolding lo_def pe by (rule fold_lower_None)
  have many: "1 < length (dc_nodes cm st' ns) \<longrightarrow> \<not> passed"
    using r(2) by simp
  have one: "(\<not> passed) = (node_epoch st' l \<noteq> Some (Some (Min (set (produced_epochs st' ns)))))"
    if l: "dc_nodes cm st' ns = [l]" for l
  proof -
    have mem: "l \<in> set (dc_nodes cm st' ns)" using l by simp
    note u = dc_nodes_up [OF r(1) mem]
    have "the (epoch_of cm l) \<in> set (produced_epochs st' ns)"
      unfolding pe using u by (simp add: true_epochs_mem)
    then have ne: "produced_epochs st' ns \<noteq> []" by auto
    then have lo': "lo = Some (Min (set (produced_epochs st' ns)))" using lo by simp
    have "Min (set (produced_epochs st' ns)) \<in> set (produced_epochs st' ns)"
      using ne Min_in [of "set (produced_epochs st' ns)"] by simp
    then have "Min (set (produced_epochs st' ns)) \<noteq> 0"
      by (auto simp add: produced_epochs_def split: option.splits if_splits)
    then have tl: "epoch_true lo" using lo' by (simp add: epoch_true_def)
    show ?thesis
      using r(2) l u tl lo' by (auto simp add: stale_def)
  qed
  have none: "dc_nodes cm st' ns = [] \<longrightarrow>
          Log_dc_not_found 0 [] ns \<in> set (messages st') \<and> passed = (produced_epochs st' ns \<noteq> [])"
  proof
    assume e: "dc_nodes cm st' ns = []"
    have "epoch_true lo = (produced_epochs st' ns \<noteq> [])"
    proof (cases "produced_epochs st' ns = []")
      case True
      then show ?thesis using lo by (simp add: epoch_true_def)
    next
      case False
      then have "Min (set (produced_epochs st' ns)) \<in> set (produced_epochs st' ns)"
        using Min_in [of "set (produced_epochs st' ns)"] by simp
      then have "Min (set (produced_epochs st' ns)) \<noteq> 0"
        by (auto simp add: produced_epochs_def split: option.splits if_splits)
      then show ?thesis using False lo by (simp add: epoch_true_def)
    qed
    then show "Log_dc_not_found 0 [] ns \<in> set (messages st') \<and> passed = (produced_epochs st' ns \<noteq> [])"
      using r(2,3) e by simp
  qed
  show ?thesis
    using many one none unfolding ns_def by blast
qed

lemmas partition_eval =
  audit_partition_def audit_node_def check_dc_def report_dcs_def say_def first_line_def
  trim_string_def trim2int_def epoch_true_def py_int_def py_strip_def py_split_def
  py_isspace_def digit_val_def dc_nodes_def produced_epochs_def Let_def

lemma partition_leader_check_witness:
  "(\<exists>st'. audit_partition (three_nodes (epochs_5_5 [''7'' @ [CHR 0x0A]]) ''n1'') all_up ''n1 n2 n3'' = Inr (st', True)
          \<and> dc_nodes (three_nodes (epochs_5_5 [''7'' @ [CHR 0x0A]]) ''n1'') st' (py_split ''n1 n2 n3'') = [''n1'']
          \<and> produced_epochs st' (py_split ''n1 n2 n3'') = [5, 5, 7]
          \<and> node_epoch st' ''n1'' = Some (Some 5))
   \<and> (\<exists>st'. audit_partition (three_nodes (epochs_5_5 [''7'' @ [CHR 0x0A]]) ''n3'') all_up ''n1 n2 n3'' = Inr (st', False)
          \<and> dc_nodes (three_nodes (epochs_5_5 [''7'' @ [CHR 0x0A]]) ''n3'') st' (py_split ''n1 n2 n3'') = [''n3'']
          \<and> produced_epochs st' (py_split ''n1 n2 n3'') = [5, 5, 7]
          \<and> node_epoch st' ''n3'' \<noteq> Some (Some 5))"
proof -
  have "\<exists>st'. audit_partition (three_nodes (epochs_5_5 [''7'' @ [CHR 0x0A]]) ''n1'') all_up ''n1 n2 n3'' = Inr (st', True)
          \<and> dc_nodes (three_nodes (epochs_5_5 [''7'' @ [CHR 0x0A]]) ''n1'') st' (py_split ''n1 n2 n3'') = [''n1'']
          \<and> produced_epochs st' (py_split ''n1 n2 n3'') = [5, 5, 7]"
    by (simp add: partition_eval three_nodes_def epochs_5_5_def all_up_def
        DiskAudit_call_def disk_node_def)
  then obtain s1 where
    a1: "audit_partition (three_nodes (epochs_5_5 [''7'' @ [CHR 0x0A]]) ''n1'') all_up ''n1 n2 n3'' = Inr (s1, True)" and
    b1: "dc_nodes (three_nodes (epochs_5_5 [''7'' @ [CHR 0x0A]]) ''n1'') s1 (py_split ''n1 n2 n3'') = [''n1'']" and
    c1: "produced_epochs s1 (py_split ''n1 n2 n3'') = [5, 5, 7]" by blast
  have d1: "node_epoch s1 ''n1'' = Some (Some 5)"
    using partition_leader_check [OF a1] b1 c1 by simp
  have "\<exists>st'. audit_partition (three_nodes (epochs_5_5 [''7'' @ [CHR 0x0A]]) ''n3'') all_up ''n1 n2 n3'' = Inr (st', False)
          \<and> dc_nodes (three_nodes (epochs_5_5 [''7'' @ [CHR 0x0A]]) ''n3'') st' (py_split ''n1 n2 n3'') = [''n3'']
          \<and> produced_epochs st' (py_split ''n1 n2 n3'') = [5, 5, 7]"
    by (simp add: partition_eval three_nodes_def epochs_5_5_def all_up_def
        DiskAudit_call_def disk_node_def)
  then obtain s2 where
    a2: "audit_partition (three_nodes (epochs_5_5 [''7'' @ [CHR 0x0A]]) ''n3'') all_up ''n1 n2 n3'' = Inr (s2, False)" and
    b2: "dc_nodes (three_nodes (epochs_5_5 [''7'' @ [CHR 0x0A]]) ''n3'') s2 (py_split ''n1 n2 n3'') = [''n3'']" and
    c2: "produced_epochs s2 (py_split ''n1 n2 n3'') = [5, 5, 7]" by blast
  have d2: "node_epoch s2 ''n3'' \<noteq> Some (Some 5)"
    using partition_leader_check [OF a2] b2 c2 by simp
  show ?thesis using a1 b1 c1 d1 a2 b2 c2 d2 by blast
qed

text \<open>
  Claim C1 says that with exactly one leader the audit fails exactly when the
  leader's observed epoch differs from the minimum epoch of the partition. The
  code strips the line end with \<^verbatim>\<open>strip\<close> and then \<^verbatim>\<open>_trim_string\<close> removes one
  more character, so an epoch of more than one digit is recorded without its last
  digit: 12 and 15 are recorded as 1, 50 and 57 as 5. With the epochs 12, 15 and 9
  and the only leader on the node that printed 9, the minimum, the audit fails
  and reports the leader as not the oldest node (9 against 1). With the epochs 50,
  50 and 57 and the only leader on the node that printed 57, the audit passes.
\<close>

theorem leader_epoch_truncated:
  "trim2int ''12'' = Inr (Some 1) \<and> trim2int ''57'' = Inr (Some 5)
   \<and> trim2int ''9'' = Inr (Some 9)
   \<and> (\<exists>st'. audit_partition (three_nodes epochs_12_15_9 ''n3'') all_up ''n1 n2 n3''
                = Inr (st', False)
          \<and> dc_nodes (three_nodes epochs_12_15_9 ''n3'') st' (py_split ''n1 n2 n3'') = [''n3'']
          \<and> produced_epochs st' (py_split ''n1 n2 n3'') = [1, 1, 9]
          \<and> Log_dc_not_oldest ''n3'' (Some 9) (Some 1) \<in> set (messages st'))
   \<and> (\<exists>st'. audit_partition (three_nodes epochs_50_50_57 ''n3'') all_up ''n1 n2 n3''
                = Inr (st', True)
          \<and> dc_nodes (three_nodes epochs_50_50_57 ''n3'') st' (py_split ''n1 n2 n3'') = [''n3'']
          \<and> produced_epochs st' (py_split ''n1 n2 n3'') = [5, 5, 5])"
  by (simp add: partition_eval three_nodes_def epochs_12_15_9_def epochs_50_50_57_def
        all_up_def)

text \<open>
  Claim C10. An epoch that converts to the integer 0 is treated like a missing
  one: the node's expected status becomes \<^verbatim>\<open>down\<close>, the node is reported as
  disappeared, and its epoch does not enter \<^verbatim>\<open>lowest_epoch\<close>, which is the
  minimum of the epochs that are neither missing nor 0. When \<^verbatim>\<open>lowest_epoch\<close> is
  0 or \<^verbatim>\<open>None\<close> after the first loop, the audit logs that the lowest epoch was
  not determined and fails the partition.
\<close>

theorem zero_epoch_is_missing:
  assumes nodes: "audit_nodes cm (py_split ps) (say (Debug_auditing ps) st, None)
                    = Inr (st1, lowest_epoch)"
      and run: "audit_partition cm st ps = Inr (st', passed)"
  shows "(\<forall>n\<in>set (py_split ps).
            node_epoch st1 n = Some (Some 0) \<or> node_epoch st1 n = Some None \<longrightarrow>
            expected_status st1 n = Some ''down'' \<and> expected_status st' n = Some ''down''
            \<and> Log_disappeared n \<in> set (messages st'))
    \<and> lowest_epoch = (if produced_epochs st1 (py_split ps) = [] then None
                       else Some (Min (set (produced_epochs st1 (py_split ps)))))
    \<and> 0 \<notin> set (produced_epochs st1 (py_split ps))
    \<and> (lowest_epoch = Some 0 \<or> lowest_epoch = None \<longrightarrow>
          \<not> passed \<and> Log_lowest_not_determined ps \<in> set (messages st'))"
proof -
  define ns where "ns = py_split ps"
  note r1 = audit_nodes_result [OF nodes, folded ns_def]
  note r = audit_partition_result [OF run, folded ns_def]
  have rec1: "recorded cm ns st st1"
    using r1 recorded_say [of cm ns "Debug_auditing ps" st st1] by simp
  have pe: "produced_epochs st1 ns = true_epochs (map (epoch_of cm) ns)"
    using rec1 by (rule produced_epochs_recorded)
  have lo: "lowest_epoch = fold lower (map (epoch_of cm) ns) None"
    using r1 by simp
  have a: "\<forall>n\<in>set ns. node_epoch st1 n = Some (Some 0) \<or> node_epoch st1 n = Some None \<longrightarrow>
            expected_status st1 n = Some ''down'' \<and> expected_status st' n = Some ''down''
            \<and> Log_disappeared n \<in> set (messages st')"
    using rec1 r(1) r(5) by (auto simp add: recorded_def epoch_true_def)
  have b: "lowest_epoch = (if produced_epochs st1 ns = [] then None
                       else Some (Min (set (produced_epochs st1 ns))))"
    unfolding lo pe by (rule fold_lower_None)
  have c: "0 \<notin> set (produced_epochs st1 ns)"
    by (auto simp add: produced_epochs_def split: option.splits if_splits)
  have d: "lowest_epoch = Some 0 \<or> lowest_epoch = None \<longrightarrow>
          \<not> passed \<and> Log_lowest_not_determined ps \<in> set (messages st')"
    using r(2) r(4) lo by (auto simp add: epoch_true_def)
  show ?thesis using a b c d unfolding ns_def by blast
qed

theorem zero_epoch_is_missing_witness:
  "(\<exists>st1 lowest_epoch st'.
      audit_nodes (three_nodes (epochs_5_5 [''0'' @ [CHR 0x0A]]) ''n1'') (py_split ''n1 n2 n3'')
          (say (Debug_auditing ''n1 n2 n3'') all_up, None) = Inr (st1, lowest_epoch)
      \<and> audit_partition (three_nodes (epochs_5_5 [''0'' @ [CHR 0x0A]]) ''n1'') all_up ''n1 n2 n3''
          = Inr (st', True)
      \<and> node_epoch st1 ''n3'' = Some (Some 0)
      \<and> expected_status st' ''n3'' = Some ''down''
      \<and> Log_disappeared ''n3'' \<in> set (messages st')
      \<and> lowest_epoch = Some 5)
   \<and> (\<exists>st1 st'.
      audit_nodes (three_nodes (\<lambda>n. [''0'' @ [CHR 0x0A]]) ''n1'') (py_split ''n1 n2 n3'')
          (say (Debug_auditing ''n1 n2 n3'') all_up, None) = Inr (st1, None)
      \<and> audit_partition (three_nodes (\<lambda>n. [''0'' @ [CHR 0x0A]]) ''n1'') all_up ''n1 n2 n3''
          = Inr (st', False)
      \<and> Log_lowest_not_determined ''n1 n2 n3'' \<in> set (messages st'))"
proof -
  have "\<exists>st1 lowest_epoch st'.
      audit_nodes (three_nodes (epochs_5_5 [''0'' @ [CHR 0x0A]]) ''n1'') (py_split ''n1 n2 n3'')
          (say (Debug_auditing ''n1 n2 n3'') all_up, None) = Inr (st1, lowest_epoch)
      \<and> audit_partition (three_nodes (epochs_5_5 [''0'' @ [CHR 0x0A]]) ''n1'') all_up ''n1 n2 n3''
          = Inr (st', True)
      \<and> node_epoch st1 ''n3'' = Some (Some 0) \<and> lowest_epoch = Some 5"
    by (simp add: partition_eval three_nodes_def epochs_5_5_def all_up_def
        DiskAudit_call_def disk_node_def)
  then obtain s1 lo s' where
    a1: "audit_nodes (three_nodes (epochs_5_5 [''0'' @ [CHR 0x0A]]) ''n1'') (py_split ''n1 n2 n3'')
          (say (Debug_auditing ''n1 n2 n3'') all_up, None) = Inr (s1, lo)" and
    b1: "audit_partition (three_nodes (epochs_5_5 [''0'' @ [CHR 0x0A]]) ''n1'') all_up ''n1 n2 n3''
          = Inr (s', True)" and
    c1: "node_epoch s1 ''n3'' = Some (Some 0)" and e1: "lo = Some 5" by blast
  have n3: "''n3'' \<in> set (py_split ''n1 n2 n3'')"
    by (simp add: py_split_def py_isspace_def)
  note t1 = zero_epoch_is_missing [OF a1 b1]
  have d1: "expected_status s' ''n3'' = Some ''down'' \<and> Log_disappeared ''n3'' \<in> set (messages s')"
    using t1 n3 c1 by blast
  have "\<exists>st1 st'.
      audit_nodes (three_nodes (\<lambda>n. [''0'' @ [CHR 0x0A]]) ''n1'') (py_split ''n1 n2 n3'')
          (say (Debug_auditing ''n1 n2 n3'') all_up, None) = Inr (st1, None)
      \<and> audit_partition (three_nodes (\<lambda>n. [''0'' @ [CHR 0x0A]]) ''n1'') all_up ''n1 n2 n3''
          = Inr (st', False)"
    by (simp add: partition_eval three_nodes_def all_up_def)
  then obtain s2 s2' where
    a2: "audit_nodes (three_nodes (\<lambda>n. [''0'' @ [CHR 0x0A]]) ''n1'') (py_split ''n1 n2 n3'')
          (say (Debug_auditing ''n1 n2 n3'') all_up, None) = Inr (s2, None)" and
    b2: "audit_partition (three_nodes (\<lambda>n. [''0'' @ [CHR 0x0A]]) ''n1'') all_up ''n1 n2 n3''
          = Inr (s2', False)" by blast
  have d2: "Log_lowest_not_determined ''n1 n2 n3'' \<in> set (messages s2')"
    using zero_epoch_is_missing [OF a2 b2] by blast
  show ?thesis using a1 b1 c1 d1 e1 a2 b2 d2 by blast
qed

text \<open>
  Claim C4 says that no audit raises on empty output, on data that does not
  convert or on a missing node. PartitionAudit does raise: IndexError when a node
  prints nothing for its epoch, ValueError when the epoch is not a number, and
  KeyError when the partition names a node without an expected status. DiskAudit
  raises UnboundLocalError when the first \<^verbatim>\<open>df\<close> output it sees does not have two
  fields.
\<close>

theorem audits_raise_on_bad_output:
  "DiskAudit_call True (\<lambda>n. [''unknown'' @ [CHR 0x0A]]) [''n1''] = Inl (UnboundLocalError ''used'')
   \<and> audit_partition (three_nodes (epochs_5_5 []) ''n1'') all_up ''n1 n2 n3'' = Inl IndexError
   \<and> audit_partition (three_nodes (epochs_5_5 [''abc'' @ [CHR 0x0A]]) ''n1'') all_up ''n1 n2 n3''
       = Inl (ValueError ''ab'')
   \<and> audit_partition (three_nodes (epochs_5_5 [''5'' @ [CHR 0x0A]]) ''n1'') all_up ''n1 n2 n3 n4''
       = Inl (KeyError ''n4'')"
  by (simp add: partition_eval three_nodes_def epochs_5_5_def all_up_def
        DiskAudit_call_def disk_node_def)

section \<open>Properties of DiskAudit\<close>

lemma two_fields_cases:
  assumes "two_fields out"
  obtains "out = []" | l rest u r where "out = l # rest" "py_split (py_strip l) = [u, r]"
proof (cases out)
  case Nil
  then show ?thesis using that by simp
next
  case (Cons l rest)
  with assms have "length (py_split (py_strip l)) = 2" by (simp add: two_fields_def)
  then obtain u r where "py_split (py_strip l) = [u, r]"
    by (auto simp add: length_Suc_conv numeral_2_eq_2)
  with Cons show ?thesis using that by blast
qed

lemma disk_node_raise:
  assumes "two_fields (df n)" "crit (df n)" "\<not> c"
  shows "disk_node c df n s = Inl (ValueError (''Disk full on '' @ n))"
  using assms(1)
proof (cases rule: two_fields_cases)
  case 1
  with assms(2) show ?thesis by (simp add: crit_def probe_def)
next
  case (2 l rest u r)
  with assms(2,3) show ?thesis
    by (auto simp add: disk_node_def crit_def probe_def Let_def split: sum.splits)
qed

lemma disk_node_ok:
  assumes "two_fields (df n)" "crit (df n) \<longrightarrow> c"
  shows "\<exists>s'. disk_node c df n s = Inr s'
           \<and> disk_result s' = (disk_result s \<and> \<not> crit (df n))
           \<and> set (disk_messages s) \<subseteq> set (disk_messages s')
           \<and> (warn (df n) \<longrightarrow> (\<exists>r. Log_warn r n \<in> set (disk_messages s')))"
  using assms(1)
proof (cases rule: two_fields_cases)
  case 1
  then show ?thesis
    by (simp add: disk_node_def crit_def warn_def probe_def disk_say_def subset_insertI)
next
  case (2 l rest u r)
  show ?thesis
  proof (cases "py_int u")
    case (Inl e)
    with 2 show ?thesis
      by (auto simp add: disk_node_def crit_def warn_def probe_def disk_say_def Let_def)
  next
    case u: (Inr up)
    show ?thesis
    proof (cases "py_int r")
      case (Inl e)
      with 2 u show ?thesis
        by (auto simp add: disk_node_def crit_def warn_def probe_def disk_say_def Let_def)
    next
      case (Inr mb)
      with 2 u assms(2) show ?thesis
        by (auto simp add: disk_node_def crit_def warn_def probe_def disk_say_def Let_def)
    qed
  qed
qed

lemma find_SomeD: "find P xs = Some x \<Longrightarrow> x \<in> set xs \<and> P x"
  by (induction xs) (auto split: if_splits)

lemma disk_nodes_ok:
  assumes "\<forall>n\<in>set nodes. two_fields (df n)"
      and "c \<or> \<not> (\<exists>n\<in>set nodes. crit (df n))"
  shows "\<exists>s'. disk_nodes c df nodes s = Inr s'
           \<and> disk_result s' = (disk_result s \<and> \<not> (\<exists>n\<in>set nodes. crit (df n)))
           \<and> set (disk_messages s) \<subseteq> set (disk_messages s')
           \<and> (\<forall>n\<in>set nodes. warn (df n) \<longrightarrow> (\<exists>r. Log_warn r n \<in> set (disk_messages s')))"
  using assms
proof (induction nodes arbitrary: s)
  case Nil
  then show ?case by simp
next
  case (Cons a nodes)
  have wf: "two_fields (df a)" and c: "crit (df a) \<longrightarrow> c"
    using Cons.prems by auto
  from disk_node_ok [where df=df and n=a and c=c and s=s, OF wf c] obtain s1 where
    s1: "disk_node c df a s = Inr s1"
        "disk_result s1 = (disk_result s \<and> \<not> crit (df a))"
        "set (disk_messages s) \<subseteq> set (disk_messages s1)"
        "warn (df a) \<longrightarrow> (\<exists>r. Log_warn r a \<in> set (disk_messages s1))"
    by blast
  have p1: "\<forall>n\<in>set nodes. two_fields (df n)" and
       p2: "c \<or> \<not> (\<exists>n\<in>set nodes. crit (df n))"
    using Cons.prems by auto
  from Cons.IH [OF p1 p2, of s1] obtain s' where
    s': "disk_nodes c df nodes s1 = Inr s'"
        "disk_result s' = (disk_result s1 \<and> \<not> (\<exists>n\<in>set nodes. crit (df n)))"
        "set (disk_messages s1) \<subseteq> set (disk_messages s')"
        "\<forall>n\<in>set nodes. warn (df n) \<longrightarrow> (\<exists>r. Log_warn r n \<in> set (disk_messages s'))"
    by blast
  have "disk_nodes c df (a # nodes) s = Inr s'" using s1(1) s'(1) by simp
  moreover have "disk_result s' = (disk_result s \<and> \<not> (\<exists>n\<in>set (a # nodes). crit (df n)))"
    using s1(2) s'(2) by auto
  moreover have "set (disk_messages s) \<subseteq> set (disk_messages s')"
    using s1(3) s'(3) by blast
  moreover have "\<forall>n\<in>set (a # nodes). warn (df n) \<longrightarrow> (\<exists>r. Log_warn r n \<in> set (disk_messages s'))"
    using s1(4) s'(3,4) by auto
  ultimately show ?case by blast
qed

lemma disk_nodes_raise:
  assumes "\<forall>n\<in>set nodes. two_fields (df n)" and "\<not> c"
      and "find (\<lambda>n. crit (df n)) nodes = Some n"
  shows "disk_nodes c df nodes s = Inl (ValueError (''Disk full on '' @ n))"
  using assms
proof (induction nodes arbitrary: s)
  case Nil
  then show ?case by simp
next
  case (Cons a nodes)
  have wf: "two_fields (df a)" using Cons.prems by simp
  show ?case
  proof (cases "crit (df a)")
    case True
    then have "n = a" using Cons.prems(3) by simp
    then show ?thesis using disk_node_raise [where df=df and n=a and c=c and s=s, OF wf True Cons.prems(2)] by simp
  next
    case False
    then have c: "crit (df a) \<longrightarrow> c" by simp
    from disk_node_ok [where df=df and n=a and c=c and s=s, OF wf c] obtain s1 where s1: "disk_node c df a s = Inr s1"
      by blast
    have "find (\<lambda>n. crit (df n)) nodes = Some n" using False Cons.prems(3) by simp
    then have "disk_nodes c df nodes s1 = Inl (ValueError (''Disk full on '' @ n))"
      using Cons.IH [of s1] Cons.prems(1,2) by simp
    then show ?thesis using s1 by simp
  qed
qed

text \<open>
  Claim C6. When the first line of every node's \<^verbatim>\<open>df\<close> output has two fields (or
  the output is empty), DiskAudit returns False exactly when some node's probe
  is CRIT (remaining megabytes below 10 or used percent above 95) and
  \<^verbatim>\<open>should_continue\<close> allows going on; it returns True exactly when no node is
  CRIT, so a node that is only at the WARN level (remaining below 100 or used
  above 90) gets its warning logged and the audit still passes; and when a node is
  CRIT and \<^verbatim>\<open>should_continue\<close> says no, the audit raises the ValueError
  \<^verbatim>\<open>Disk full on <node>\<close> for the first such node instead of returning.
\<close>

theorem disk_audit_levels:
  assumes "\<forall>n\<in>set nodes. two_fields (df n)"
  shows "((\<exists>msgs. DiskAudit_call c df nodes = Inr (msgs, False))
            = (c \<and> (\<exists>n\<in>set nodes. crit (df n))))
    \<and> ((\<exists>msgs. DiskAudit_call c df nodes = Inr (msgs, True))
            = (\<not> (\<exists>n\<in>set nodes. crit (df n))))
    \<and> ((\<exists>e. DiskAudit_call c df nodes = Inl e)
            = (\<not> c \<and> (\<exists>n\<in>set nodes. crit (df n))))
    \<and> (\<forall>n. find (\<lambda>n. crit (df n)) nodes = Some n \<and> \<not> c \<longrightarrow>
          DiskAudit_call c df nodes = Inl (ValueError (''Disk full on '' @ n)))
    \<and> (\<forall>msgs b. DiskAudit_call c df nodes = Inr (msgs, b) \<longrightarrow>
          (\<forall>n\<in>set nodes. warn (df n) \<longrightarrow> (\<exists>r. Log_warn r n \<in> set msgs)))"
proof (cases "c \<or> \<not> (\<exists>n\<in>set nodes. crit (df n))")
  case True
  define s0 where "s0 = \<lparr>disk_result = True, used_remain = None, disk_messages = []\<rparr>"
  from disk_nodes_ok [OF assms True, of s0] obtain s' where
    s': "disk_nodes c df nodes s0 = Inr s'"
        "disk_result s' = (disk_result s0 \<and> \<not> (\<exists>n\<in>set nodes. crit (df n)))"
        "\<forall>n\<in>set nodes. warn (df n) \<longrightarrow> (\<exists>r. Log_warn r n \<in> set (disk_messages s'))"
    by blast
  have call: "DiskAudit_call c df nodes = Inr (disk_messages s', \<not> (\<exists>n\<in>set nodes. crit (df n)))"
    using s'(1,2) by (simp add: DiskAudit_call_def s0_def)
  have nofind: "\<not> c \<Longrightarrow> find (\<lambda>n. crit (df n)) nodes = None"
    using True by (auto simp add: find_None_iff)
  show ?thesis
    using call s'(3) True nofind by auto
next
  case False
  then have nc: "\<not> c" and ex: "\<exists>n\<in>set nodes. crit (df n)" by auto
  from ex obtain n where n: "find (\<lambda>n. crit (df n)) nodes = Some n"
    by (cases "find (\<lambda>n. crit (df n)) nodes") (auto simp add: find_None_iff)
  have call: "DiskAudit_call c df nodes = Inl (ValueError (''Disk full on '' @ n))"
    using disk_nodes_raise [OF assms nc n] by (simp add: DiskAudit_call_def)
  show ?thesis
    using call n nc ex by auto
qed

theorem disk_audit_levels_witness:
  "two_fields (df_example ''n1'') \<and> two_fields (df_example ''n2'')
   \<and> two_fields (df_example ''n3'') \<and> two_fields (df_example ''n4'')
   \<and> crit (df_example ''n3'') \<and> warn (df_example ''n2'')
   \<and> (\<exists>msgs. DiskAudit_call True df_example [''n1'', ''n2'', ''n3'', ''n4''] = Inr (msgs, False))
   \<and> DiskAudit_call False df_example [''n1'', ''n2'', ''n3'', ''n4'']
       = Inl (ValueError ''Disk full on n3'')
   \<and> (\<exists>msgs. DiskAudit_call False df_example [''n1'', ''n2'', ''n4''] = Inr (msgs, True))"
proof -
  have ev: "two_fields (df_example ''n1'')" "two_fields (df_example ''n2'')"
    "two_fields (df_example ''n3'')" "two_fields (df_example ''n4'')"
    "\<not> crit (df_example ''n1'')" "\<not> crit (df_example ''n2'')"
    "crit (df_example ''n3'')" "\<not> crit (df_example ''n4'')" "warn (df_example ''n2'')"
    by (simp_all add: two_fields_def crit_def warn_def probe_def df_example_def py_split_def
          py_strip_def py_isspace_def py_int_def digit_val_def)
  have wf4: "\<forall>n\<in>set [''n1'', ''n2'', ''n3'', ''n4'']. two_fields (df_example n)"
    using ev by simp
  have wf3: "\<forall>n\<in>set [''n1'', ''n2'', ''n4'']. two_fields (df_example n)"
    using ev by simp
  have f: "find (\<lambda>n. crit (df_example n)) [''n1'', ''n2'', ''n3'', ''n4''] = Some ''n3''"
    using ev by simp
  have a: "\<exists>msgs. DiskAudit_call True df_example [''n1'', ''n2'', ''n3'', ''n4''] = Inr (msgs, False)"
    using disk_audit_levels [OF wf4, of True] ev by simp
  have b: "DiskAudit_call False df_example [''n1'', ''n2'', ''n3'', ''n4'']
       = Inl (ValueError ''Disk full on n3'')"
    using disk_audit_levels [OF wf4, of False] f by simp
  have c: "\<exists>msgs. DiskAudit_call False df_example [''n1'', ''n2'', ''n4''] = Inr (msgs, True)"
    using disk_audit_levels [OF wf3, of False] ev by simp
  show ?thesis using ev a b c by blast
qed

section \<open>Properties of PrimitiveAudit\<close>

text \<open>
  Claim C2 says that a primitive with exactly one active location fails the audit
  exactly when the cluster lacks quorum and the resource requires quorum. The
  code compares the string \<^verbatim>\<open>needs_quorum\<close> with the integer 1, which is never
  equal: for the resource of \<open>quorum_resource_line\<close>, which requires quorum, active on
  one node without quorum, \<^verbatim>\<open>_audit_resource\<close> returns True and logs nothing, and
  no resource with exactly one active location ever fails. A resource active on
  two or more nodes fails exactly when it is both managed and unique.
\<close>

theorem quorum_violation_not_detected:
  "(case AuditResource_init quorum_resource_line of
      Inl e \<Rightarrow> False
    | Inr r \<Rightarrow> res_type r = ''primitive'' \<and> needs_quorum r = ''1'' \<and> managed r = 2
              \<and> audit_resource r False [''node1''] [] False = ([], True))
   \<and> snd (audit_resource resource quorum [node] inactive warn_inactive) = True
   \<and> snd (audit_resource resource quorum (node # node' # others) inactive warn_inactive)
       = (managed resource = 0 \<or> unique resource = 0)"
  by (simp add: AuditResource_init_def quorum_resource_line_def py_split_def py_isspace_def
      py_int_def py_strip_def digit_val_def managed_def audit_resource_def Let_def)

section \<open>Properties of GroupAudit\<close>

lemma child_locations_Cons:
  "child_locations loc (c # cs) g =
     (if parent c = Some (res_id g) then loc (res_id c) # child_locations loc cs g
      else child_locations loc cs g)"
  by (simp add: child_locations_def)

lemma child_locations_Nil: "child_locations loc [] g = []"
  by (simp add: child_locations_def)

lemma group_child_other:
  "parent c \<noteq> Some (res_id g) \<Longrightarrow> group_child loc g c w = w"
  by (simp add: group_child_def)

lemma group_child_later:
  assumes "parent c = Some (res_id g)" "\<not> first_match w"
  shows "\<not> first_match (group_child loc g c w)"
    and "loc (res_id c) = [] \<Longrightarrow>
           group_location (group_child loc g c w) = None
           \<and> group_result (group_child loc g c w) = group_result w"
    and "loc (res_id c) = [n] \<Longrightarrow>
           group_location (group_child loc g c w) = group_location w
           \<and> group_result (group_child loc g c w)
               = (group_result w \<and> group_location w = Some n)"
    and "loc (res_id c) = n # m # ms \<Longrightarrow> \<not> group_result (group_child loc g c w)"
  using assms by (auto simp add: group_child_def Let_def split: list.splits)

lemma group_child_first_stopped:
  assumes "parent c = Some (res_id g)" "first_match w" "loc (res_id c) = []"
  shows "\<not> first_match (group_child loc g c w)"
    and "group_location (group_child loc g c w) = None"
    and "group_result (group_child loc g c w) = group_result w"
  using assms by (simp_all add: group_child_def Let_def)

lemma group_child_first_one:
  assumes "parent c = Some (res_id g)" "first_match w" "loc (res_id c) = [n]"
  shows "\<not> first_match (group_child loc g c w)"
    and "group_location (group_child loc g c w) = Some n"
    and "group_result (group_child loc g c w) = group_result w"
  using assms by (simp_all add: group_child_def Let_def)

lemma group_child_first_many:
  assumes "parent c = Some (res_id g)" "first_match w" "loc (res_id c) = n # m # ms"
  shows "\<not> first_match (group_child loc g c w)"
    and "\<not> group_result (group_child loc g c w)"
  using assms by (simp_all add: group_child_def Let_def)

lemma walk_children_later:
  "\<not> first_match w \<Longrightarrow>
   group_result (walk_children loc g cs w)
     = (group_result w \<and> later_ok (group_location w) (child_locations loc cs g))"
proof (induction cs arbitrary: w)
  case Nil
  then show ?case by (simp add: child_locations_Nil)
next
  case (Cons c cs)
  show ?case
  proof (cases "parent c = Some (res_id g)")
    case False
    then show ?thesis
      using Cons.IH [OF Cons.prems] by (simp add: group_child_other child_locations_Cons)
  next
    case True
    note gc = group_child_later [OF True Cons.prems, of loc]
    note ih = Cons.IH [OF gc(1)]
    show ?thesis
    proof (cases "loc (res_id c)")
      case Nil
      then show ?thesis using ih gc(2) True by (simp add: child_locations_Cons)
    next
      case (Cons n ns)
      note outer = Cons
      show ?thesis
      proof (cases ns)
        case Nil
        then show ?thesis
          using ih gc(3) [of n] outer True by (auto simp add: child_locations_Cons)
      next
        case (Cons m ms)
        then show ?thesis
          using ih gc(4) [of n m ms] outer True by (simp add: child_locations_Cons)
      qed
    qed
  qed
qed

lemma walk_children_first:
  "first_match w \<Longrightarrow>
   group_result (walk_children loc g cs w)
     = (group_result w \<and>
        (case child_locations loc cs g of
           [] \<Rightarrow> True
         | nodes # rest \<Rightarrow> length nodes \<le> 1 \<and> later_ok (first_location [nodes]) rest))"
proof (induction cs arbitrary: w)
  case Nil
  then show ?case by (simp add: child_locations_Nil)
next
  case (Cons c cs)
  show ?case
  proof (cases "parent c = Some (res_id g)")
    case False
    then show ?thesis
      using Cons.IH [OF Cons.prems] by (simp add: group_child_other child_locations_Cons)
  next
    case True
    note fm = Cons.prems
    show ?thesis
    proof (cases "loc (res_id c)")
      case Nil
      note gc = group_child_first_stopped [where loc=loc and c=c and g=g and w=w, OF True fm Nil]
      have "group_result (walk_children loc g cs (group_child loc g c w))
              = (group_result w \<and> later_ok None (child_locations loc cs g))"
        using walk_children_later [OF gc(1)] gc(2,3) by simp
      then show ?thesis
        using True Nil by (simp add: child_locations_Cons first_location_def)
    next
      case (Cons n ns)
      note outer = Cons
      show ?thesis
      proof (cases ns)
        case Nil
        have one: "loc (res_id c) = [n]" using outer Nil by simp
        note gc = group_child_first_one [where loc=loc and c=c and g=g and w=w, OF True fm one]
        have "group_result (walk_children loc g cs (group_child loc g c w))
                = (group_result w \<and> later_ok (Some n) (child_locations loc cs g))"
          using walk_children_later [OF gc(1)] gc(2,3) by simp
        then show ?thesis
          using True one by (simp add: child_locations_Cons first_location_def)
      next
        case (Cons m ms)
        have many: "loc (res_id c) = n # m # ms" using outer Cons by simp
        note gc = group_child_first_many [where loc=loc and c=c and g=g and w=w, OF True fm many]
        have "\<not> group_result (walk_children loc g cs (group_child loc g c w))"
          using walk_children_later [OF gc(1)] gc(2) by simp
        then show ?thesis
          using True many by (simp add: child_locations_Cons)
      qed
    qed
  qed
qed

lemma later_ok_None: "later_ok None locs = (locs = replicate (length locs) [])"
proof (induction locs)
  case Nil
  then show ?case by simp
next
  case (Cons l locs)
  then show ?case
  proof (cases l)
    case Nil
    then show ?thesis using Cons by simp
  next
    case (Cons n ns)
    then show ?thesis by (cases ns) simp_all
  qed
qed

lemma later_ok_Some:
  "later_ok (Some n) locs
     = (\<exists>k. locs = replicate k [n] @ replicate (length locs - k) [])"
proof (induction locs)
  case Nil
  then show ?case by simp
next
  case (Cons l locs)
  show ?case
  proof (cases l)
    case Nil
    have "(\<exists>k. [] # locs = replicate k [n] @ replicate (length ([] # locs) - k) [])
          = (locs = replicate (length locs) [])"
    proof
      assume "\<exists>k. [] # locs = replicate k [n] @ replicate (length ([] # locs) - k) []"
      then obtain k where k: "[] # locs = replicate k [n] @ replicate (length ([] # locs) - k) []"
        by blast
      then have "k = 0" by (cases k) simp_all
      with k show "locs = replicate (length locs) []" by simp
    next
      assume "locs = replicate (length locs) []"
      then have "[] # locs = replicate 0 [n] @ replicate (length ([] # locs) - 0) []"
        by simp
      then show "\<exists>k. [] # locs = replicate k [n] @ replicate (length ([] # locs) - k) []"
        by blast
    qed
    then show ?thesis using Nil by (simp add: later_ok_None)
  next
    case (Cons m ms)
    note outer = Cons
    show ?thesis
    proof (cases ms)
      case Nil
      have "(\<exists>k. [m] # locs = replicate k [n] @ replicate (length ([m] # locs) - k) [])
            = (n = m \<and> (\<exists>k. locs = replicate k [n] @ replicate (length locs - k) []))"
      proof
        assume "\<exists>k. [m] # locs = replicate k [n] @ replicate (length ([m] # locs) - k) []"
        then obtain k where
          k: "[m] # locs = replicate k [n] @ replicate (length ([m] # locs) - k) []"
          by blast
        then obtain j where j: "k = Suc j" by (cases k) simp_all
        with k have "n = m" "locs = replicate j [n] @ replicate (length locs - j) []"
          by simp_all
        then show "n = m \<and> (\<exists>k. locs = replicate k [n] @ replicate (length locs - k) [])"
          by blast
      next
        assume "n = m \<and> (\<exists>k. locs = replicate k [n] @ replicate (length locs - k) [])"
        then obtain j where "n = m" "locs = replicate j [n] @ replicate (length locs - j) []"
          by blast
        then have "[m] # locs
                   = replicate (Suc j) [n] @ replicate (length ([m] # locs) - Suc j) []"
          by simp
        then show "\<exists>k. [m] # locs = replicate k [n] @ replicate (length ([m] # locs) - k) []"
          by blast
      qed
      then show ?thesis using Nil outer Cons.IH by auto
    next
      case (Cons a as)
      have "\<not> (\<exists>k. (m # a # as) # locs
                   = replicate k [n] @ replicate (length ((m # a # as) # locs) - k) [])"
      proof
        assume "\<exists>k. (m # a # as) # locs
                   = replicate k [n] @ replicate (length ((m # a # as) # locs) - k) []"
        then obtain k where
          "(m # a # as) # locs = replicate k [n] @ replicate (length ((m # a # as) # locs) - k) []"
          by blast
        then show False by (cases k) simp_all
      qed
      then show ?thesis using Cons outer by simp
    qed
  qed
qed

lemma initial_ok_iff:
  "(case locs of
      [] \<Rightarrow> True
    | nodes # rest \<Rightarrow> length nodes \<le> 1 \<and> later_ok (first_location [nodes]) rest)
   = (\<exists>n. later_ok (Some n) locs)"
proof (cases locs)
  case Nil
  then show ?thesis by simp
next
  case (Cons nodes rest)
  show ?thesis
  proof (cases nodes)
    case Nil
    then show ?thesis using Cons by (simp add: first_location_def)
  next
    case inner: (Cons m ms)
    show ?thesis
    proof (cases ms)
      case Nil
      then show ?thesis using Cons inner by (simp add: first_location_def)
    next
      case (Cons a as)
      then show ?thesis using \<open>locs = nodes # rest\<close> inner by simp
    qed
  qed
qed

lemma walk_children_placed:
  assumes "first_match w"
  shows "group_result (walk_children loc g cs w)
           = (group_result w \<and> placed (child_locations loc cs g))"
proof -
  have "(\<exists>n. later_ok (Some n) (child_locations loc cs g)) = placed (child_locations loc cs g)"
    unfolding placed_def later_ok_Some by blast
  then show ?thesis
    using walk_children_first [OF assms, of loc g cs] initial_ok_iff [of "child_locations loc cs g"]
    by simp
qed

lemma walk_groups_placed:
  "group_result (walk_groups loc all gs w)
     = (group_result w
        \<and> (\<forall>g\<in>set gs. res_type g = ''group'' \<longrightarrow> placed (child_locations loc all g)))"
proof (induction gs arbitrary: w)
  case Nil
  then show ?case by simp
next
  case (Cons g gs)
  show ?case
  proof (cases "res_type g = ''group''")
    case False
    then show ?thesis using Cons.IH [of w] by simp
  next
    case True
    define w0 where "w0 = w\<lparr>first_match := True, group_location := None\<rparr>"
    have fm: "first_match w0" and r0: "group_result w0 = group_result w"
      by (simp_all add: w0_def)
    have "group_result (walk_children loc g all w0)
            = (group_result w \<and> placed (child_locations loc all g))"
      using walk_children_placed [OF fm, of loc g all] r0 by simp
    then show ?thesis
      using True Cons.IH [of "walk_children loc g all w0"] by (auto simp add: w0_def)
  qed
qed

text \<open>
  Claim C3, as the code has it. In the walk over the children of a group, in
  listing order: a child active on more than one node fails the audit; an inactive
  child resets the expected location to \<^verbatim>\<open>None\<close>; and the walk leaves the result
  unchanged exactly when the children are \<open>placed\<close>: some children each active
  on one and the same node only, followed by stopped children only. So a child
  that is active after a stopped one fails the audit, wherever it runs, and the
  expected location is the node of the first listed child, not that of the nearest
  active predecessor. \<^verbatim>\<open>GroupAudit.__call__\<close> returns whether every group is so
  placed.
\<close>

theorem group_children_placement:
  "(first_match w \<longrightarrow>
      group_result (walk_children loc grp all w)
        = (group_result w \<and> placed (child_locations loc all grp)))
   \<and> (parent child = Some (res_id grp) \<and> 1 < length (loc (res_id child)) \<longrightarrow>
        \<not> group_result (group_child loc grp child w))
   \<and> (parent child = Some (res_id grp) \<and> loc (res_id child) = [] \<longrightarrow>
        group_location (group_child loc grp child w) = None)
   \<and> (audit_setup es nodes list_cts = Inr (Some s) \<longrightarrow>
        (\<exists>msgs. GroupAudit_call es nodes list_cts loc
           = Inr (msgs, \<forall>g\<in>set (resources s).
                          res_type g = ''group'' \<longrightarrow> placed (child_locations loc (resources s) g))))"
proof -
  have a: "first_match w \<longrightarrow>
      group_result (walk_children loc grp all w)
        = (group_result w \<and> placed (child_locations loc all grp))"
    using walk_children_placed [of w loc grp all] by blast
  have b: "parent child = Some (res_id grp) \<and> 1 < length (loc (res_id child)) \<longrightarrow>
        \<not> group_result (group_child loc grp child w)"
    by (cases "loc (res_id child)") (auto simp add: group_child_def Let_def)
  have c: "parent child = Some (res_id grp) \<and> loc (res_id child) = [] \<longrightarrow>
        group_location (group_child loc grp child w) = None"
    by (simp add: group_child_def Let_def)
  have d: "audit_setup es nodes list_cts = Inr (Some s) \<longrightarrow>
        (\<exists>msgs. GroupAudit_call es nodes list_cts loc
           = Inr (msgs, \<forall>g\<in>set (resources s).
                          res_type g = ''group'' \<longrightarrow> placed (child_locations loc (resources s) g)))"
    by (simp add: GroupAudit_call_def Let_def walk_groups_placed)
  show ?thesis using a b c d by blast
qed

lemmas group_eval =
  GroupAudit_call_def audit_setup_def AuditResource_init_def group_lines_def group_list_cts_def
  one_node_up_def py_split_def py_isspace_def py_int_def py_strip_def digit_val_def
  group_child_def Let_def

text \<open>
  The claim as the specification states it fails: with the first child of a group
  stopped and the second active on one node, the audit fails and reports the
  second child on the wrong node, expected \<^verbatim>\<open>None\<close>.
\<close>

theorem group_later_child_counterexample:
  "GroupAudit_call one_node_up [''node1''] group_list_cts group_loc
     = Inr ([Debug_child_stopped ''child1'' ''grp1'',
             Log_child_wrong_node ''child2'' ''grp1'' ''node1'' None], False)"
  by (simp add: group_eval group_loc_def)

theorem group_children_placement_witness:
  "\<exists>s. audit_setup one_node_up [''node1''] group_list_cts = Inr (Some s)
       \<and> (\<exists>msgs. GroupAudit_call one_node_up [''node1''] group_list_cts all_on_node1
                   = Inr (msgs, True))
       \<and> (\<exists>g. g \<in> set (resources s) \<and> res_type g = ''group''
                \<and> placed (child_locations all_on_node1 (resources s) g))"
proof -
  have "\<exists>s. audit_setup one_node_up [''node1''] group_list_cts = Inr (Some s)
          \<and> res_type (hd (resources s)) = ''group'' \<and> resources s \<noteq> []"
    by (simp add: group_eval)
  then obtain s where
    s: "audit_setup one_node_up [''node1''] group_list_cts = Inr (Some s)" and
    g: "res_type (hd (resources s)) = ''group''" "resources s \<noteq> []"
    by blast
  have run: "\<exists>msgs. GroupAudit_call one_node_up [''node1''] group_list_cts all_on_node1
                   = Inr (msgs, True)"
    by (simp add: group_eval all_on_node1_def)
  from group_children_placement [of _ all_on_node1 _ _ _ one_node_up "[''node1'']" group_list_cts s] s
  obtain msgs where
    "GroupAudit_call one_node_up [''node1''] group_list_cts all_on_node1
       = Inr (msgs, \<forall>g\<in>set (resources s).
                      res_type g = ''group'' \<longrightarrow> placed (child_locations all_on_node1 (resources s) g))"
    by blast
  with run have all: "\<forall>g\<in>set (resources s).
                      res_type g = ''group'' \<longrightarrow> placed (child_locations all_on_node1 (resources s) g)"
    by auto
  have "hd (resources s) \<in> set (resources s)" using g(2) by simp
  with all g(1) have "placed (child_locations all_on_node1 (resources s) (hd (resources s)))"
    by blast
  then show ?thesis using s run g \<open>hd (resources s) \<in> set (resources s)\<close> by blast
qed

section \<open>Properties of CIBAudit\<close>

lemma diff_lines_result:
  "snd (diff_lines n0 n ls r) = (snd r \<and> list_all (contains ''<diff/>'') ls)"
  by (induction ls arbitrary: r) auto

lemma store_remote_cib_name:
  "snd (store_remote_cib cm n t) = Some f \<Longrightarrow> f = cib_filename n"
  by (auto simp add: store_remote_cib_def Let_def split: if_splits)

lemma cib_node_reference:
  assumes "node0 s = Some n0" "node0_xml s = Some (cib_filename n0)"
  shows "node0 (cib_node cm n s) = Some n0"
    and "node0_xml (cib_node cm n s) = Some (cib_filename n0)"
    and "cib_passed (cib_node cm n s)
           = (cib_passed s \<and> produces cm n (Some n0)
              \<and> diff_status cm n0 n = 0 \<and> diff_clean cm n0 n)"
proof -
  show "node0 (cib_node cm n s) = Some n0"
    using assms by (simp add: cib_node_def Let_def split: option.splits)
  show "node0_xml (cib_node cm n s) = Some (cib_filename n0)"
    using assms by (simp add: cib_node_def Let_def split: option.splits)
  show "cib_passed (cib_node cm n s)
           = (cib_passed s \<and> produces cm n (Some n0)
              \<and> diff_status cm n0 n = 0 \<and> diff_clean cm n0 n)"
  proof (cases "snd (store_remote_cib cm n (Some n0))")
    case None
    then show ?thesis using assms by (simp add: cib_node_def Let_def produces_def)
  next
    case (Some f)
    then have f: "f = cib_filename n" by (rule store_remote_cib_name)
    show ?thesis
      using assms Some f
      by (simp add: cib_node_def Let_def produces_def diff_lines_result diff_status_def
            diff_clean_def)
  qed
qed

lemma cib_nodes_reference:
  "node0 s = Some n0 \<Longrightarrow> node0_xml s = Some (cib_filename n0) \<Longrightarrow>
   cib_passed (cib_nodes cm ns s)
     = (cib_passed s \<and> (\<forall>n\<in>set ns. produces cm n (Some n0)
                             \<and> diff_status cm n0 n = 0 \<and> diff_clean cm n0 n))"
proof (induction ns arbitrary: s)
  case Nil
  then show ?case by simp
next
  case (Cons a ns)
  note r = cib_node_reference [OF Cons.prems, of cm a]
  show ?case
    using Cons.IH [OF r(1) r(2)] r(3) by auto
qed

lemma cib_node_first:
  assumes "node0 s = None"
  shows "produces cm n None \<Longrightarrow>
           node0 (cib_node cm n s) = Some n
           \<and> node0_xml (cib_node cm n s) = Some (cib_filename n)
           \<and> cib_passed (cib_node cm n s) = cib_passed s"
    and "\<not> produces cm n None \<Longrightarrow> \<not> cib_passed (cib_node cm n s)"
proof -
  show "node0 (cib_node cm n s) = Some n
           \<and> node0_xml (cib_node cm n s) = Some (cib_filename n)
           \<and> cib_passed (cib_node cm n s) = cib_passed s" if "produces cm n None"
  proof -
    from that obtain f where f: "snd (store_remote_cib cm n None) = Some f"
      by (auto simp add: produces_def)
    then have "f = cib_filename n" by (rule store_remote_cib_name)
    with f show ?thesis using assms by (simp add: cib_node_def Let_def)
  qed
  show "\<not> cib_passed (cib_node cm n s)" if "\<not> produces cm n None"
    using that assms by (simp add: cib_node_def Let_def produces_def)
qed

lemma cib_node_failed: "\<not> cib_passed s \<Longrightarrow> \<not> cib_passed (cib_node cm n s)"
  by (simp add: cib_node_def Let_def diff_lines_result split: option.splits)

lemma cib_nodes_failed: "\<not> cib_passed s \<Longrightarrow> \<not> cib_passed (cib_nodes cm ns s)"
  by (induction ns arbitrary: s) (simp_all add: cib_node_failed)

lemma cib_node_no_document:
  "\<forall>t. \<not> produces cm n t \<Longrightarrow> \<not> cib_passed (cib_node cm n s)"
  by (simp add: cib_node_def Let_def produces_def)

lemma cib_nodes_no_document:
  "n \<in> set ns \<Longrightarrow> \<forall>t. \<not> produces cm n t \<Longrightarrow> \<not> cib_passed (cib_nodes cm ns s)"
proof (induction ns arbitrary: s)
  case Nil
  then show ?case by simp
next
  case (Cons a ns)
  show ?case
  proof (cases "a = n")
    case True
    then show ?thesis
      using cib_node_no_document [OF Cons.prems(2), of s] cib_nodes_failed by simp
  next
    case False
    then show ?thesis using Cons by simp
  qed
qed

text \<open>
  Claim C5, as the code has it. \<^verbatim>\<open>_audit_cib_contents\<close> passes a partition if and
  only if the first node (the reference node) produces its configuration document
  and every other node produces its document, its \<^verbatim>\<open>crm_diff\<close> against the reference
  document exits with status 0, and every line of that output contains the marker
  \<^verbatim>\<open><diff/>\<close>. A node that cannot produce its document, whatever the target,
  fails the audit of the whole partition.
\<close>

theorem cib_audit_passes:
  "snd (audit_cib_contents cm hostlist)
     = (case py_split hostlist of
          [] \<Rightarrow> True
        | n0 # rest \<Rightarrow>
            produces cm n0 None
            \<and> (\<forall>n\<in>set rest. produces cm n (Some n0)
                   \<and> diff_status cm n0 n = 0 \<and> diff_clean cm n0 n))
   \<and> ((\<exists>n\<in>set (py_split hostlist). \<forall>t. \<not> produces cm n t) \<longrightarrow>
         \<not> snd (audit_cib_contents cm hostlist))"
proof -
  define s0 where "s0 = \<lparr>cib_passed = True, node0 = None, node0_xml = None, cib_messages = []\<rparr>"
  have res: "snd (audit_cib_contents cm hostlist) = cib_passed (cib_nodes cm (py_split hostlist) s0)"
    by (simp add: audit_cib_contents_def Let_def s0_def)
  have a: "cib_passed (cib_nodes cm (py_split hostlist) s0)
     = (case py_split hostlist of
          [] \<Rightarrow> True
        | n0 # rest \<Rightarrow>
            produces cm n0 None
            \<and> (\<forall>n\<in>set rest. produces cm n (Some n0)
                   \<and> diff_status cm n0 n = 0 \<and> diff_clean cm n0 n))"
  proof (cases "py_split hostlist")
    case Nil
    then show ?thesis by (simp add: s0_def)
  next
    case (Cons n0 rest)
    have n: "node0 s0 = None" by (simp add: s0_def)
    show ?thesis
    proof (cases "produces cm n0 None")
      case True
      from cib_node_first(1) [OF n True] have
        f: "node0 (cib_node cm n0 s0) = Some n0"
           "node0_xml (cib_node cm n0 s0) = Some (cib_filename n0)"
           "cib_passed (cib_node cm n0 s0) = cib_passed s0"
        by simp_all
      show ?thesis
        using cib_nodes_reference [OF f(1) f(2), of cm rest] f(3) True Cons
        by (simp add: s0_def)
    next
      case False
      from cib_node_first(2) [OF n False] have "\<not> cib_passed (cib_node cm n0 s0)" .
      then have "\<not> cib_passed (cib_nodes cm rest (cib_node cm n0 s0))"
        by (rule cib_nodes_failed)
      then show ?thesis using False Cons by simp
    qed
  qed
  have b: "(\<exists>n\<in>set (py_split hostlist). \<forall>t. \<not> produces cm n t) \<longrightarrow>
         \<not> cib_passed (cib_nodes cm (py_split hostlist) s0)"
    using cib_nodes_no_document by blast
  show ?thesis using res a b by simp
qed

lemmas cib_eval =
  audit_cib_contents_def cib_node_def store_remote_cib_def silent_diff_def cib_filename_def
  produces_def diff_clean_def diff_status_def py_split_def py_isspace_def Let_def

text \<open>
  The claim as the specification states it fails: both nodes produce their
  documents and the \<^verbatim>\<open>crm_diff\<close> output has no line without the marker (it is
  empty), but \<^verbatim>\<open>crm_diff\<close> exits with status 1 and the audit fails.
\<close>

theorem cib_diff_status_counterexample:
  "\<not> snd (audit_cib_contents (silent_diff 1) ''n1 n2'')
   \<and> produces (silent_diff 1) ''n1'' None
   \<and> produces (silent_diff 1) ''n2'' (Some ''n1'')
   \<and> diff_clean (silent_diff 1) ''n1'' ''n2''"
  by (simp add: cib_eval)

theorem cib_audit_passes_witness:
  "snd (audit_cib_contents (silent_diff 0) ''n1 n2'')
   \<and> py_split ''n1 n2'' = [''n1'', ''n2'']
   \<and> produces (silent_diff 0) ''n1'' None
   \<and> produces (silent_diff 0) ''n2'' (Some ''n1'')
   \<and> diff_status (silent_diff 0) ''n1'' ''n2'' = 0
   \<and> diff_clean (silent_diff 0) ''n1'' ''n2''"
proof -
  have sp: "py_split ''n1 n2'' = [''n1'', ''n2'']"
    by (simp add: py_split_def py_isspace_def)
  have ok: "produces (silent_diff 0) ''n1'' None"
    "produces (silent_diff 0) ''n2'' (Some ''n1'')"
    "diff_status (silent_diff 0) ''n1'' ''n2'' = 0"
    "diff_clean (silent_diff 0) ''n1'' ''n2''"
    by (simp_all add: store_remote_cib_def silent_diff_def cib_filename_def
          produces_def diff_clean_def diff_status_def Let_def)
  have "snd (audit_cib_contents (silent_diff 0) ''n1 n2'')"
    using cib_audit_passes [of "silent_diff 0" "''n1 n2''"] sp ok by simp
  then show ?thesis using sp ok by simp
qed

section \<open>Properties of FileAudit\<close>

lemma core_lines_known:
  "set (fst (core_lines tool node ls s)) = set (fst s) \<union> set (map py_strip ls)"
  by (induction ls arbitrary: s) (auto split: prod.splits)

lemma core_lines_absorbed:
  "set (map py_strip ls) \<subseteq> set (fst s) \<Longrightarrow> core_lines tool node ls s = s"
  by (induction ls arbitrary: s) (auto split: prod.splits)

lemma core_lines_reported:
  "reported_known s \<Longrightarrow> reported_known (core_lines tool node ls s)"
proof (induction ls arbitrary: s)
  case Nil
  then show ?case by simp
next
  case (Cons l ls)
  obtain known msgs found where s: "s = (known, msgs, found)" by (cases s)
  show ?case
  proof (cases "py_strip l \<in> set known")
    case True
    then show ?thesis using Cons s by simp
  next
    case False
    have "reported_known (known @ [py_strip l],
                          msgs @ [Log_core_file tool node (py_strip l)], True)"
      using Cons.prems s by (auto simp add: reported_known_def)
    then show ?thesis using Cons.IH False s by simp
  qed
qed

lemma stale_lines_result:
  "stale_lines node ls s =
     (fst s @ map (Log_stale_ipc node) ls,
      if ls = [] then fst (snd s) else False,
      if ls = [] then snd (snd s) else True)"
  by (induction ls arbitrary: s) auto

lemma file_node_unfold:
  "file_node cm es n s =
     (let c1 = core_lines ''Pacemaker'' n (ls_cores cm n ''/var/lib/pacemaker/cores/*'')
                 (fst s, fst (snd s), False);
          c2 = core_lines ''Corosync'' n (ls_cores cm n ''/var/lib/corosync'')
                 (fst c1, fst (snd c1), False);
          result2 = (if snd (snd c2) then False else if snd (snd c1) then False
                     else snd (snd s))
      in
      if es n = Some ''down'' then
        (fst c2,
         fst (snd c2) @ map (Log_stale_ipc n) (ls_shm cm n)
           @ (if ls_shm cm n = [] then [] else map (Debug_ps n) (ps_out cm n)),
         if ls_shm cm n = [] then result2 else False)
      else (fst c2, fst (snd c2) @ [Debug_skipping n], result2))"
  by (cases s)
     (simp add: file_node_def find_core_on_fs_def stale_lines_result Let_def
        split: prod.splits)

lemma file_node_known:
  "set (fst (file_node cm es n s)) = set (fst s) \<union> set (core_listing cm n)"
  by (auto simp add: file_node_unfold Let_def core_lines_known core_listing_def)

lemma reported_known_weaken:
  "reported_known (k, m, f) \<Longrightarrow> reported_known (k, m, f')"
  by (simp add: reported_known_def)

lemma reported_known_other:
  "reported_known (k, m, f) \<Longrightarrow> \<forall>x\<in>set m'. \<not> is_core_msg x \<Longrightarrow>
   reported_known (k, m @ m', f')"
  by (auto simp add: reported_known_def)

lemma file_node_reported:
  assumes "reported_known s"
  shows "reported_known (file_node cm es n s)"
proof -
  define c1 where "c1 = core_lines ''Pacemaker'' n (ls_cores cm n ''/var/lib/pacemaker/cores/*'')
                 (fst s, fst (snd s), False)"
  define c2 where "c2 = core_lines ''Corosync'' n (ls_cores cm n ''/var/lib/corosync'')
                 (fst c1, fst (snd c1), False)"
  have "reported_known (fst s, fst (snd s), False)"
    using assms by (simp add: reported_known_def)
  then have r1: "reported_known c1" unfolding c1_def by (rule core_lines_reported)
  then have "reported_known (fst c1, fst (snd c1), False)"
    by (simp add: reported_known_def)
  then have r2: "reported_known c2" unfolding c2_def by (rule core_lines_reported)
  then have r2': "reported_known (fst c2, fst (snd c2), snd (snd c2))" by simp
  have a: "reported_known (fst c2, fst (snd c2) @ m', f')" if "\<forall>x\<in>set m'. \<not> is_core_msg x"
    for m' f'
    using reported_known_other [OF r2' that] .
  have b: "reported_known (fst c2, fst (snd c2), f')" for f'
    using reported_known_weaken [OF r2'] .
  show ?thesis
    unfolding file_node_unfold Let_def c1_def [symmetric] c2_def [symmetric]
    by (auto intro!: a b)
qed

lemma file_node_absorbed:
  assumes "set (core_listing cm n) \<subseteq> set (fst s)"
  shows "file_node cm es n s =
           (fst s,
            fst (snd s) @ (if es n = Some ''down''
                           then map (Log_stale_ipc n) (ls_shm cm n)
                                @ (if ls_shm cm n = [] then []
                                   else map (Debug_ps n) (ps_out cm n))
                           else [Debug_skipping n]),
            snd (snd s) \<and> \<not> (es n = Some ''down'' \<and> ls_shm cm n \<noteq> []))"
proof -
  have 1: "core_lines ''Pacemaker'' n (ls_cores cm n ''/var/lib/pacemaker/cores/*'')
             (fst s, fst (snd s), False) = (fst s, fst (snd s), False)"
    using assms by (intro core_lines_absorbed) (simp add: core_listing_def)
  have 2: "core_lines ''Corosync'' n (ls_cores cm n ''/var/lib/corosync'')
             (fst s, fst (snd s), False) = (fst s, fst (snd s), False)"
    using assms by (intro core_lines_absorbed) (simp add: core_listing_def)
  show ?thesis
    unfolding file_node_unfold by (simp add: 1 2 Let_def)
qed

lemma file_nodes_known:
  "set (fst (file_nodes cm es ns s)) = set (fst s) \<union> (\<Union>n\<in>set ns. set (core_listing cm n))"
  by (induction ns arbitrary: s) (auto simp add: file_node_known)

lemma file_nodes_reported:
  "reported_known s \<Longrightarrow> reported_known (file_nodes cm es ns s)"
  by (induction ns arbitrary: s) (simp_all add: file_node_reported)

lemma file_nodes_absorbed:
  "\<forall>n\<in>set ns. set (core_listing cm n) \<subseteq> set (fst s) \<Longrightarrow>
   fst (file_nodes cm es ns s) = fst s
   \<and> filter is_core_msg (fst (snd (file_nodes cm es ns s))) = filter is_core_msg (fst (snd s))
   \<and> snd (snd (file_nodes cm es ns s)) = (snd (snd s) \<and> stale_nodes cm es ns = [])"
proof (induction ns arbitrary: s)
  case Nil
  then show ?case by (simp add: stale_nodes_def)
next
  case (Cons a ns)
  have sub: "set (core_listing cm a) \<subseteq> set (fst s)" using Cons.prems by simp
  note step = file_node_absorbed [OF sub, of es]
  have k: "fst (file_node cm es a s) = fst s" by (simp add: step)
  have m: "filter is_core_msg (fst (snd (file_node cm es a s)))
             = filter is_core_msg (fst (snd s))"
    by (simp add: step)
  have r: "snd (snd (file_node cm es a s))
             = (snd (snd s) \<and> \<not> (es a = Some ''down'' \<and> ls_shm cm a \<noteq> []))"
    by (simp add: step)
  have rest: "\<forall>n\<in>set ns. set (core_listing cm n) \<subseteq> set (fst (file_node cm es a s))"
    using Cons.prems k by simp
  show ?case
    using Cons.IH [OF rest] k m r by (auto simp add: stale_nodes_def)
qed

text \<open>
  Claim C9. When FileAudit runs a second time on the same audit object over the
  same remote output: every core-file line that the first run reported is in
  \<^verbatim>\<open>self.known\<close>; the second run adds nothing to \<^verbatim>\<open>self.known\<close> and writes no
  core-file message; and it returns True exactly when no node expected down lists
  a stale IPC file, so it returns True where the first run returned False only
  because of core files.
\<close>

theorem file_audit_rerun:
  assumes first: "FileAudit_call cm es nodes known = (known1, msgs1, result1)"
      and second: "FileAudit_call cm es nodes known1 = (known2, msgs2, result2)"
  shows "(\<forall>tool node l. Log_core_file tool node l \<in> set msgs1 \<longrightarrow> l \<in> set known1)
    \<and> known2 = known1
    \<and> filter is_core_msg msgs2 = []
    \<and> result2 = (stale_nodes cm es nodes = [])"
proof -
  have "reported_known (known, [], True)" by (simp add: reported_known_def)
  then have "reported_known (file_nodes cm es nodes (known, [], True))"
    by (rule file_nodes_reported)
  then have a: "\<forall>tool node l. Log_core_file tool node l \<in> set msgs1 \<longrightarrow> l \<in> set known1"
    using first by (simp add: FileAudit_call_def reported_known_def)
  have "set known1 = set known \<union> (\<Union>n\<in>set nodes. set (core_listing cm n))"
    using file_nodes_known [of cm es nodes "(known, [], True)"] first
    by (simp add: FileAudit_call_def)
  then have sub: "\<forall>n\<in>set nodes. set (core_listing cm n) \<subseteq> set (fst (known1, [] :: file_msg list, True))"
    by auto
  from file_nodes_absorbed [OF sub, of es] second
  have "known2 = known1 \<and> filter is_core_msg msgs2 = []
         \<and> result2 = (stale_nodes cm es nodes = [])"
    by (simp add: FileAudit_call_def)
  with a show ?thesis by blast
qed

theorem file_audit_rerun_witness:
  "\<exists>known1 msgs1 msgs2.
     FileAudit_call core_on_n1 both_up [''n1'', ''n2''] [] = (known1, msgs1, False)
     \<and> FileAudit_call core_on_n1 both_up [''n1'', ''n2''] known1 = (known1, msgs2, True)
     \<and> filter is_core_msg msgs1 \<noteq> []
     \<and> filter is_core_msg msgs2 = []"
proof -
  have "\<exists>known1 msgs1 msgs2.
     FileAudit_call core_on_n1 both_up [''n1'', ''n2''] [] = (known1, msgs1, False)
     \<and> FileAudit_call core_on_n1 both_up [''n1'', ''n2''] known1 = (known1, msgs2, True)
     \<and> filter is_core_msg msgs1 \<noteq> []"
    by (simp add: FileAudit_call_def file_node_def find_core_on_fs_def core_on_n1_def
          both_up_def py_strip_def py_isspace_def)
  then obtain known1 msgs1 msgs2 where
    r1: "FileAudit_call core_on_n1 both_up [''n1'', ''n2''] [] = (known1, msgs1, False)" and
    r2: "FileAudit_call core_on_n1 both_up [''n1'', ''n2''] known1 = (known1, msgs2, True)" and
    c1: "filter is_core_msg msgs1 \<noteq> []"
    by blast
  have "filter is_core_msg msgs2 = []"
    using file_audit_rerun [OF r1 r2] by blast
  then show ?thesis using r1 r2 c1 by blast
qed

section \<open>Properties of LogAudit\<close>









end
